theory Spec2Isabelle
  imports Complex_Main "HOL-Library.AList"
begin

section \<open>Data model\<close>

text \<open>
  A record of the source and sink: the three typed fields of \<^verbatim>\<open>SinkUpsert\<close> in
  \<^verbatim>\<open>api/app.py\<close> and of the seeded \<^verbatim>\<open>SOURCE_ITEMS\<close>.
\<close>

record item =
  external_id :: string
  name :: string
  item_value :: int

text \<open>\<^verbatim>\<open>@dataclass class RetryPolicy\<close>; delays are Python floats, modelled as reals.\<close>

record retry_policy =
  max_attempts :: int
  base_delay_s :: real
  max_delay_s :: real

definition RetryPolicy :: retry_policy where
  "RetryPolicy = \<lparr>max_attempts = 6, base_delay_s = 0.4, max_delay_s = 5.0\<rparr>"

text \<open>
  The JSON bodies the tool reads: a source page \<^verbatim>\<open>{"items": [...], "next_page": n | null}\<close>,
  a sink answer \<^verbatim>\<open>{"status": s}\<close>, or anything else.
\<close>

datatype body = PageBody "item list" "int option" | StatusBody string | OtherBody

record response =
  status_code :: int
  headers :: "(string \<times> string) list"
  body :: body

text \<open>
  The exceptions that occur. \<^verbatim>\<open>httpx.TimeoutException\<close> and \<^verbatim>\<open>httpx.NetworkError\<close> are the two
  classes \<^verbatim>\<open>request_with_retries\<close> catches; \<^verbatim>\<open>HTTPStatusError\<close> is what
  \<^verbatim>\<open>raise_for_status\<close> raises and carries the response.
\<close>

datatype exc =
    TimeoutException string
  | NetworkError string
  | HTTPStatusError response
  | ValueError string
  | KeyError string
  | RuntimeError string
  | OtherException string

text \<open>
  The two requests the tool sends: \<^verbatim>\<open>GET {base_url}/source/items?page={page}&limit={page_size}\<close>
  and \<^verbatim>\<open>POST {base_url}/sink/items\<close> with request headers and the JSON payload.
\<close>

datatype request =
    GET_source_items int int
  | POST_sink_items "(string \<times> string) list" item

text \<open>What one \<^verbatim>\<open>client.request\<close> call does: it returns a response or raises.\<close>

datatype outcome = Responds response | Raises exc

text \<open>
  The remote side is a state \<open>'w\<close> and a handler; one call of the client runs the
  handler once.
\<close>

type_synonym 'w client = "request \<Rightarrow> 'w \<Rightarrow> outcome \<times> 'w"

text \<open>The dry-run artifact \<^verbatim>\<open>report.json\<close>.\<close>

record report =
  run_id :: string
  timestamp :: string
  count :: int
  external_ids :: "string list"

text \<open>
  Everything the tool acts on: the remote state, the trace of \<^verbatim>\<open>client.request\<close> calls
  with what came back, the arguments \<^verbatim>\<open>time.sleep\<close> was called with, the random generator
  (its \<open>i\<close>-th draw and the number of draws made), and the report file.
\<close>

record 'w state =
  remote :: 'w
  exchanges :: "(request \<times> outcome) list"
  slept :: "real list"
  rng :: "nat \<Rightarrow> real"
  draws :: nat
  report_file :: "report option"

section \<open>Retry executor\<close>

text \<open>\<^verbatim>\<open>2 ** k\<close> for a Python int \<open>k\<close> (a float when \<open>k\<close> is negative).\<close>

definition pow2 :: "int \<Rightarrow> real" where
  "pow2 k = (if 0 \<le> k then 2 ^ nat k else 1 / 2 ^ nat (- k))"

definition random_random :: "'w state \<Rightarrow> real \<times> 'w state" where
  "random_random st = (rng st (draws st), st\<lparr>draws := Suc (draws st)\<rparr>)"

definition backoff :: "int \<Rightarrow> real \<Rightarrow> real \<Rightarrow> 'w state \<Rightarrow> real \<times> 'w state" where
  "backoff attempt base cap st =
     (let delay = min cap (base * pow2 (attempt - 1));
          (r, st') = random_random st
      in (delay * (0.5 + r), st'))"

definition should_retry :: "int \<Rightarrow> bool" where
  "should_retry status =
     (if status = 429 then True
      else if 500 \<le> status \<and> status \<le> 599 then True
      else if status \<in> {408} then True
      else False)"

text \<open>\<^verbatim>\<open>time.sleep\<close> raises \<^verbatim>\<open>ValueError\<close> on a negative argument.\<close>

definition time_sleep :: "real \<Rightarrow> 'w state \<Rightarrow> (exc + unit) \<times> 'w state" where
  "time_sleep s st =
     (if s < 0 then (Inl (ValueError ''sleep length must be non-negative''), st)
      else (Inr (), st\<lparr>slept := slept st @ [s]\<rparr>))"

text \<open>
  \<^verbatim>\<open>httpx.Response.raise_for_status\<close>: raises \<^verbatim>\<open>HTTPStatusError\<close> unless the status is a
  success (200 to 299).
\<close>

definition raise_for_status :: "response \<Rightarrow> exc + response" where
  "raise_for_status resp =
     (if 200 \<le> status_code resp \<and> status_code resp \<le> 299 then Inr resp
      else Inl (HTTPStatusError resp))"

definition is_transient :: "exc \<Rightarrow> bool" where
  "is_transient e = (case e of TimeoutException m \<Rightarrow> True | NetworkError m \<Rightarrow> True | _ \<Rightarrow> False)"

text \<open>
  The value \<^verbatim>\<open>sleep_s\<close> chosen on a retryable status: the \<^verbatim>\<open>Retry-After\<close> header when it is
  present, not empty and \<^verbatim>\<open>float\<close> accepts it, the backoff otherwise. \<open>float_of\<close> is Python's
  \<^verbatim>\<open>float(str)\<close>, \<open>None\<close> where it raises \<^verbatim>\<open>ValueError\<close>.
\<close>

definition sleep_s ::
  "(string \<Rightarrow> real option) \<Rightarrow> response \<Rightarrow> retry_policy \<Rightarrow> int \<Rightarrow> 'w state \<Rightarrow> real \<times> 'w state" where
  "sleep_s float_of resp retry attempt st =
     (case map_of (headers resp) ''Retry-After'' of
        Some retry_after \<Rightarrow>
          if retry_after \<noteq> [] then
            (case float_of retry_after of
               Some v \<Rightarrow> (v, st)
             | None \<Rightarrow> backoff attempt (base_delay_s retry) (max_delay_s retry) st)
          else backoff attempt (base_delay_s retry) (max_delay_s retry) st
      | None \<Rightarrow> backoff attempt (base_delay_s retry) (max_delay_s retry) st)"

text \<open>How one iteration of the \<^verbatim>\<open>for attempt in range(...)\<close> loop ends.\<close>

datatype flow = Return response | Raise exc | Continue "exc option"

text \<open>
  The body of the loop of \<^verbatim>\<open>request_with_retries\<close> for one \<open>attempt\<close>. \<open>Continue\<close> carries
  \<^verbatim>\<open>last_exc\<close> into the next iteration.
\<close>

definition request_attempt ::
  "(string \<Rightarrow> real option) \<Rightarrow> 'w client \<Rightarrow> request \<Rightarrow> retry_policy \<Rightarrow> int \<Rightarrow> exc option
     \<Rightarrow> 'w state \<Rightarrow> flow \<times> 'w state" where
  "request_attempt float_of client req retry attempt last_exc st =
     (case client req (remote st) of (out, w') \<Rightarrow>
        let st1 = st\<lparr>remote := w', exchanges := exchanges st @ [(req, out)]\<rparr> in
        (case out of
           Responds resp \<Rightarrow>
             if status_code resp < 400 then (Return resp, st1)
             else if should_retry (status_code resp) \<and> attempt < max_attempts retry then
               (case sleep_s float_of resp retry attempt st1 of
                  (v, st2) \<Rightarrow>
                    (case time_sleep v st2 of
                       (Inl e, st3) \<Rightarrow> (Raise e, st3)
                     | (Inr u, st3) \<Rightarrow> (Continue last_exc, st3)))
             else (case raise_for_status resp of
                     Inl e \<Rightarrow> (Raise e, st1)
                   | Inr r \<Rightarrow> (Return r, st1))
         | Raises e \<Rightarrow>
             if is_transient e then
               (if attempt \<ge> max_attempts retry then (Raise e, st1)
                else (case backoff attempt (base_delay_s retry) (max_delay_s retry) st1 of
                        (v, st2) \<Rightarrow>
                          (case time_sleep v st2 of
                             (Inl e', st3) \<Rightarrow> (Raise e', st3)
                           | (Inr u, st3) \<Rightarrow> (Continue (Some e), st3))))
             else (Raise e, st1)))"

text \<open>
  The loop \<^verbatim>\<open>for attempt in range(1, retry.max_attempts + 1)\<close> from \<open>attempt\<close> on, and the
  two \<^verbatim>\<open>raise\<close> statements after it.
\<close>

function request_loop ::
  "(string \<Rightarrow> real option) \<Rightarrow> 'w client \<Rightarrow> request \<Rightarrow> retry_policy \<Rightarrow> int \<Rightarrow> exc option
     \<Rightarrow> 'w state \<Rightarrow> (exc + response) \<times> 'w state" where
  "request_loop float_of client req retry attempt last_exc st =
     (if attempt \<le> max_attempts retry then
        (case request_attempt float_of client req retry attempt last_exc st of
           (Return resp, st') \<Rightarrow> (Inr resp, st')
         | (Raise e, st') \<Rightarrow> (Inl e, st')
         | (Continue le, st') \<Rightarrow> request_loop float_of client req retry (attempt + 1) le st')
      else (case last_exc of
              Some e \<Rightarrow> (Inl e, st)
            | None \<Rightarrow> (Inl (RuntimeError ''request_with_retries failed unexpectedly''), st)))"
  by pat_completeness auto
termination
  by (relation "measure (\<lambda>(f, c, r, retry, attempt, le, st). nat (max_attempts retry + 1 - attempt))")
     auto

declare request_loop.simps [simp del]

definition request_with_retries ::
  "(string \<Rightarrow> real option) \<Rightarrow> 'w client \<Rightarrow> request \<Rightarrow> retry_policy \<Rightarrow> 'w state
     \<Rightarrow> (exc + response) \<times> 'w state" where
  "request_with_retries float_of client req retry st =
     request_loop float_of client req retry 1 None st"

section \<open>Paginated fetcher\<close>

text \<open>Python's slice \<^verbatim>\<open>xs[i:j]\<close>: a negative index counts from the end, and both are clamped.\<close>

definition py_index :: "int \<Rightarrow> nat \<Rightarrow> nat" where
  "py_index i n = (if i < 0 then nat (int n + i) else min (nat i) n)"

definition py_slice :: "int \<Rightarrow> int \<Rightarrow> 'a list \<Rightarrow> 'a list" where
  "py_slice i j xs = take (py_index j (length xs) - py_index i (length xs)) (drop (py_index i (length xs)) xs)"

text \<open>
  \<^verbatim>\<open>data["items"]\<close>, \<^verbatim>\<open>data.get("next_page")\<close> and \<^verbatim>\<open>resp.json()["status"]\<close>; a missing key
  (or a body that is no JSON object) raises.
\<close>

definition json_items :: "body \<Rightarrow> exc + item list" where
  "json_items b = (case b of PageBody batch nxt \<Rightarrow> Inr batch | _ \<Rightarrow> Inl (KeyError ''items''))"

definition json_next_page :: "body \<Rightarrow> int option" where
  "json_next_page b = (case b of PageBody batch nxt \<Rightarrow> nxt | _ \<Rightarrow> None)"

definition json_status :: "body \<Rightarrow> exc + string" where
  "json_status b = (case b of StatusBody s \<Rightarrow> Inr s | _ \<Rightarrow> Inl (KeyError ''status''))"

definition page_size :: int where
  "page_size = 10"

definition max_pages :: int where
  "max_pages = 100"

text \<open>
  The loop \<^verbatim>\<open>while page and page <= max_pages\<close> of \<^verbatim>\<open>fetch_all_source_items\<close>. \<open>page\<close> is an
  int or \<^verbatim>\<open>None\<close>; it is falsy when \<^verbatim>\<open>None\<close> or 0. The loop need not end, so the result is an
  option: \<open>None\<close> when it runs forever.
\<close>

partial_function (option) fetch_loop ::
  "(string \<Rightarrow> real option) \<Rightarrow> 'w client \<Rightarrow> int option \<Rightarrow> int option \<Rightarrow> item list \<Rightarrow> 'w state
     \<Rightarrow> ((exc + item list) \<times> 'w state) option" where
  "fetch_loop float_of client lmt page items st =
     (case page of
        None \<Rightarrow> Some (Inr items, st)
      | Some p \<Rightarrow>
          if p \<noteq> 0 \<and> p \<le> max_pages then
            (case request_with_retries float_of client (GET_source_items p page_size) RetryPolicy st of
               (Inl e, st1) \<Rightarrow> Some (Inl e, st1)
             | (Inr resp, st1) \<Rightarrow>
                 (case json_items (body resp) of
                    Inl e \<Rightarrow> Some (Inl e, st1)
                  | Inr batch \<Rightarrow>
                      if (case lmt of None \<Rightarrow> False | Some l \<Rightarrow> int (length (items @ batch)) \<ge> l)
                      then Some (Inr (items @ batch), st1)
                      else fetch_loop float_of client lmt (json_next_page (body resp))
                             (items @ batch) st1))
          else Some (Inr items, st))"

definition fetch_all_source_items ::
  "(string \<Rightarrow> real option) \<Rightarrow> 'w client \<Rightarrow> int option \<Rightarrow> 'w state
     \<Rightarrow> ((exc + item list) \<times> 'w state) option" where
  "fetch_all_source_items float_of client lmt st =
     (case fetch_loop float_of client lmt (Some 1) [] st of
        None \<Rightarrow> None
      | Some (Inl e, st') \<Rightarrow> Some (Inl e, st')
      | Some (Inr items, st') \<Rightarrow>
          Some (Inr (case lmt of None \<Rightarrow> items | Some l \<Rightarrow> py_slice 0 l items), st'))"

section \<open>Reconciler\<close>

record stats =
  created_count :: int
  updated_count :: int
  failed_count :: int

text \<open>
  The request built for one record: the payload (\<^verbatim>\<open>int(it["value"])\<close> is the value itself) and
  the header \<^verbatim>\<open>Idempotency-Key: sync:{external_id}\<close>.
\<close>

definition sink_request :: "item \<Rightarrow> request" where
  "sink_request it =
     (let payload = \<lparr>external_id = external_id it, name = name it, item_value = item_value it\<rparr>;
          hdrs = [(''Idempotency-Key'', ''sync:'' @ external_id payload)]
      in POST_sink_items hdrs payload)"

text \<open>
  The \<^verbatim>\<open>try\<close> block of the loop \<^verbatim>\<open>for it in source_items\<close>: one \<^verbatim>\<open>request_with_retries\<close> and
  \<^verbatim>\<open>resp.json()["status"]\<close>. Its result is the status read, or the exception raised.
\<close>

definition submit ::
  "(string \<Rightarrow> real option) \<Rightarrow> 'w client \<Rightarrow> item \<Rightarrow> 'w state \<Rightarrow> (exc + string) \<times> 'w state" where
  "submit float_of client it st =
     (case request_with_retries float_of client (sink_request it) RetryPolicy st of
        (Inr resp, st1) \<Rightarrow> (json_status (body resp), st1)
      | (Inl e, st1) \<Rightarrow> (Inl e, st1))"

text \<open>
  The body of the loop: the \<^verbatim>\<open>try\<close> block, and one counter incremented (\<^verbatim>\<open>failed\<close> in the
  \<^verbatim>\<open>except Exception\<close> branch).
\<close>

definition upsert_one ::
  "(string \<Rightarrow> real option) \<Rightarrow> 'w client \<Rightarrow> item \<Rightarrow> stats \<Rightarrow> 'w state \<Rightarrow> stats \<times> 'w state" where
  "upsert_one float_of client it s st =
     (case submit float_of client it st of
        (Inr status, st1) \<Rightarrow>
          if status = ''created'' then (s\<lparr>created_count := created_count s + 1\<rparr>, st1)
          else (s\<lparr>updated_count := updated_count s + 1\<rparr>, st1)
      | (Inl e, st1) \<Rightarrow> (s\<lparr>failed_count := failed_count s + 1\<rparr>, st1))"

fun upsert_loop ::
  "(string \<Rightarrow> real option) \<Rightarrow> 'w client \<Rightarrow> item list \<Rightarrow> stats \<Rightarrow> 'w state \<Rightarrow> stats \<times> 'w state" where
  "upsert_loop float_of client [] s st = (s, st)"
| "upsert_loop float_of client (it # its) s st =
     (case upsert_one float_of client it s st of (s', st') \<Rightarrow> upsert_loop float_of client its s' st')"

definition upsert_sink_items ::
  "(string \<Rightarrow> real option) \<Rightarrow> 'w client \<Rightarrow> item list \<Rightarrow> 'w state \<Rightarrow> stats \<times> 'w state" where
  "upsert_sink_items float_of client source_items st =
     upsert_loop float_of client source_items
       \<lparr>created_count = 0, updated_count = 0, failed_count = 0\<rparr> st"

section \<open>Command line entry point\<close>

record args =
  base_url :: string
  dry_run :: bool
  limit :: "int option"

text \<open>
  \<^verbatim>\<open>main\<close>, with the run id and the timestamp it draws from the system given as \<open>rid\<close> and
  \<open>now\<close>. The result is the exit code, or the exception that leaves \<^verbatim>\<open>main\<close>; \<open>None\<close> when
  the fetch never ends.
\<close>

definition main ::
  "(string \<Rightarrow> real option) \<Rightarrow> 'w client \<Rightarrow> args \<Rightarrow> string \<Rightarrow> string \<Rightarrow> 'w state
     \<Rightarrow> ((exc + int) \<times> 'w state) option" where
  "main float_of client as rid now st =
     (case fetch_all_source_items float_of client (limit as) st of
        None \<Rightarrow> None
      | Some (Inl e, st1) \<Rightarrow> Some (Inl e, st1)
      | Some (Inr items, st1) \<Rightarrow>
          if dry_run as then
            Some (Inr 0, st1\<lparr>report_file := Some \<lparr>run_id = rid, timestamp = now,
                    count = int (length items),
                    external_ids = map external_id (py_slice 0 20 items)\<rparr>\<rparr>)
          else
            (case upsert_sink_items float_of client items st1 of
               (stats, st2) \<Rightarrow> Some (Inr (if failed_count stats = 0 then 0 else 2), st2)))"

section \<open>The demo service of api/app.py\<close>

record app =
  SOURCE_ITEMS :: "item list"
  SINK_ITEMS_BY_EXTERNAL_ID :: "(string \<times> item) list"
  FAIL_SOURCE_PAGE_2_ONCE :: bool
  sink_write_calls :: int

text \<open>\<^verbatim>\<open>str(n)\<close> for a natural number, as the f-strings of \<^verbatim>\<open>seed_source\<close> need it.\<close>

function str_nat :: "nat \<Rightarrow> string" where
  "str_nat n =
     (if n < 10 then [''0123456789'' ! n]
      else str_nat (n div 10) @ [''0123456789'' ! (n mod 10)])"
  by pat_completeness auto
termination
  by (relation "measure id") auto

declare str_nat.simps [simp del]

text \<open>The 25 records \<^verbatim>\<open>seed_source\<close> stores at startup.\<close>

definition seed_source :: "item list" where
  "seed_source =
     map (\<lambda>i. \<lparr>external_id = ''item-'' @ str_nat i, name = ''Item '' @ str_nat i,
                 item_value = int i\<rparr>) [1..<26]"

text \<open>The service after startup and \<^verbatim>\<open>POST /admin/reset\<close>.\<close>

definition app_started :: app where
  "app_started = \<lparr>SOURCE_ITEMS = seed_source, SINK_ITEMS_BY_EXTERNAL_ID = [],
     FAIL_SOURCE_PAGE_2_ONCE = True, sink_write_calls = 0\<rparr>"

definition SINK_429_EVERY_N_CALLS :: int where
  "SINK_429_EVERY_N_CALLS = 5"

text \<open>A raised \<^verbatim>\<open>HTTPException\<close> becomes a response with that status and those headers.\<close>

definition http_exception :: "int \<Rightarrow> (string \<times> string) list \<Rightarrow> outcome" where
  "http_exception code hs = Responds \<lparr>status_code = code, headers = hs, body = OtherBody\<rparr>"

definition ok_json :: "body \<Rightarrow> outcome" where
  "ok_json b = Responds \<lparr>status_code = 200, headers = [], body = b\<rparr>"

definition source_items :: "int \<Rightarrow> int \<Rightarrow> app \<Rightarrow> outcome \<times> app" where
  "source_items page lmt a =
     (if page = 2 \<and> FAIL_SOURCE_PAGE_2_ONCE a then
        (http_exception 500 [], a\<lparr>FAIL_SOURCE_PAGE_2_ONCE := False\<rparr>)
      else
        (let start = (page - 1) * lmt;
             stop = start + lmt;
             items = py_slice start stop (SOURCE_ITEMS a);
             next_page = (if stop < int (length (SOURCE_ITEMS a)) then Some (page + 1) else None)
         in (ok_json (PageBody items next_page), a)))"

text \<open>The dict is an association list in insertion order; a key is stored once.\<close>

definition sink_upsert :: "item \<Rightarrow> app \<Rightarrow> outcome \<times> app" where
  "sink_upsert payload a =
     (let a1 = a\<lparr>sink_write_calls := sink_write_calls a + 1\<rparr> in
      if SINK_429_EVERY_N_CALLS > 0 \<and> sink_write_calls a1 mod SINK_429_EVERY_N_CALLS = 0 then
        (http_exception 429 [(''Retry-After'', ''1'')], a1)
      else
        (let ext = external_id payload;
             created = (ext \<notin> set (map fst (SINK_ITEMS_BY_EXTERNAL_ID a1)))
         in (ok_json (StatusBody (if created then ''created'' else ''updated'')),
             a1\<lparr>SINK_ITEMS_BY_EXTERNAL_ID :=
                  AList.update ext payload (SINK_ITEMS_BY_EXTERNAL_ID a1)\<rparr>)))"

text \<open>The \<^verbatim>\<open>count\<close> that \<^verbatim>\<open>GET /sink/items\<close> reports.\<close>

definition sink_count :: "app \<Rightarrow> int" where
  "sink_count a = int (length (SINK_ITEMS_BY_EXTERNAL_ID a))"

definition app_client :: "app client" where
  "app_client req a =
     (case req of
        GET_source_items page lmt \<Rightarrow> source_items page lmt a
      | POST_sink_items hs payload \<Rightarrow> sink_upsert payload a)"

section \<open>Observations on a run\<close>

text \<open>
  Whether an attempt's outcome is a success (a response with status below 400), and the
  exception a failed outcome stands for.
\<close>

definition succeeded :: "outcome \<Rightarrow> bool" where
  "succeeded out = (case out of Responds resp \<Rightarrow> status_code resp < 400 | Raises e \<Rightarrow> False)"

definition failure :: "outcome \<Rightarrow> exc" where
  "failure out = (case out of Responds resp \<Rightarrow> HTTPStatusError resp | Raises e \<Rightarrow> e)"

definition is_source_get :: "request \<Rightarrow> bool" where
  "is_source_get req = (case req of GET_source_items p l \<Rightarrow> True | POST_sink_items hs it \<Rightarrow> False)"

text \<open>The requests sent between two states of a run.\<close>

definition sent_since :: "'w state \<Rightarrow> 'w state \<Rightarrow> request list" where
  "sent_since st st' = map fst (drop (length (exchanges st)) (exchanges st'))"

text \<open>
  A run of page fetches that all succeed. \<open>page_trace float_of client st page tr\<close> says: the
  loop of the fetcher, entered in state \<open>st\<close> with cursor \<open>page\<close>, goes on for exactly the
  pages listed in \<open>tr\<close>. Each entry is a page's items, its \<^verbatim>\<open>next_page\<close> cursor and the
  state after it: \<^verbatim>\<open>request_with_retries\<close> for the current cursor returns a response with
  that page as its body and leaves that state, and the next entry is fetched with that cursor
  from that state. After the last entry the cursor stops the loop (it is absent, 0, or above
  \<open>max_pages\<close>).
\<close>

fun page_trace ::
  "(string \<Rightarrow> real option) \<Rightarrow> 'w client \<Rightarrow> 'w state \<Rightarrow> int option
     \<Rightarrow> (item list \<times> int option \<times> 'w state) list \<Rightarrow> bool" where
  "page_trace float_of client st page [] =
     (case page of None \<Rightarrow> True | Some p \<Rightarrow> \<not> (p \<noteq> 0 \<and> p \<le> max_pages))"
| "page_trace float_of client st page ((batch, nxt, st') # rest) =
     (case page of
        None \<Rightarrow> False
      | Some p \<Rightarrow>
          p \<noteq> 0 \<and> p \<le> max_pages
          \<and> (case request_with_retries float_of client (GET_source_items p page_size) RetryPolicy st of
                (Inr resp, st1) \<Rightarrow> st1 = st' \<and> body resp = PageBody batch nxt
              | (Inl e, st1) \<Rightarrow> False)
          \<and> page_trace float_of client st' nxt rest)"

text \<open>The state after the last page of a trace.\<close>

definition final_state :: "'w state \<Rightarrow> (item list \<times> int option \<times> 'w state) list \<Rightarrow> 'w state" where
  "final_state st tr = (if tr = [] then st else snd (snd (last tr)))"

text \<open>
  How many of the pages \<open>bs\<close> are fetched under the limit \<open>l\<close> when \<open>n\<close> items are already
  accumulated: every page up to and including the first one with which the accumulated
  count reaches \<open>l\<close>.
\<close>

fun pages_needed :: "int \<Rightarrow> nat \<Rightarrow> 'a list list \<Rightarrow> nat" where
  "pages_needed l n [] = 0"
| "pages_needed l n (b # bs) =
     (if l \<le> int (n + length b) then 1 else Suc (pages_needed l (n + length b) bs))"

text \<open>
  What a stretch of a run from \<open>st\<close> to \<open>st'\<close> that only reads the source has done: the
  requests sent are source reads, the trace has only grown, the report file is untouched,
  and whatever observation \<open>g\<close> of the remote state no source read changes is unchanged.
\<close>

definition fetch_frame ::
  "'w client \<Rightarrow> ('w \<Rightarrow> 'g) \<Rightarrow> 'w state \<Rightarrow> 'w state \<Rightarrow> bool" where
  "fetch_frame c g st st' \<longleftrightarrow>
     (\<forall>q \<in> set (sent_since st st'). is_source_get q)
    \<and> take (length (exchanges st)) (exchanges st') = exchanges st
    \<and> length (exchanges st) \<le> length (exchanges st')
    \<and> report_file st' = report_file st
    \<and> ((\<forall>p l w. g (snd (c (GET_source_items p l) w)) = g w) \<longrightarrow> g (remote st') = g (remote st))"

text \<open>Counters all zero, and the sum of two tallies.\<close>

definition zero_stats :: stats where
  "zero_stats = \<lparr>created_count = 0, updated_count = 0, failed_count = 0\<rparr>"

definition add_stats :: "stats \<Rightarrow> stats \<Rightarrow> stats" where
  "add_stats a b = \<lparr>created_count = created_count a + created_count b,
     updated_count = updated_count a + updated_count b,
     failed_count = failed_count a + failed_count b\<rparr>"

text \<open>The outcomes of the attempts made between two states of a run.\<close>

definition outcomes_since :: "'w state \<Rightarrow> 'w state \<Rightarrow> outcome list" where
  "outcomes_since st st' = map snd (drop (length (exchanges st)) (exchanges st'))"

section \<open>Concrete surroundings for the examples\<close>

text \<open>
  The state at the start of a run against the remote state \<open>w\<close>: nothing sent, nothing
  slept, no report, and a generator whose every draw is 1/2.
\<close>

definition fresh :: "'w \<Rightarrow> 'w state" where
  "fresh w = \<lparr>remote = w, exchanges = [], slept = [], rng = (\<lambda>i. 1 / 2), draws = 0,
     report_file = None\<rparr>"

text \<open>A remote side that gives the same response to every request.\<close>

definition always :: "response \<Rightarrow> unit client" where
  "always resp req w = (Responds resp, w)"

text \<open>
  A small service: its source is the single page \<open>page\<close>; its sink answers 503 to every
  write of the record \<open>bad\<close> and stores every other record, reporting \<^verbatim>\<open>created\<close> or
  \<^verbatim>\<open>updated\<close>. Its state is the list of stored ids.
\<close>

definition demo_service :: "item list \<Rightarrow> string \<Rightarrow> string list client" where
  "demo_service page bad req w =
     (case req of
        GET_source_items p l \<Rightarrow>
          (Responds \<lparr>status_code = 200, headers = [], body = PageBody page None\<rparr>, w)
      | POST_sink_items hs it \<Rightarrow>
          if external_id it = bad then
            (Responds \<lparr>status_code = 503, headers = [], body = OtherBody\<rparr>, w)
          else if external_id it \<in> set w then
            (Responds \<lparr>status_code = 200, headers = [], body = StatusBody ''updated''\<rparr>, w)
          else
            (Responds \<lparr>status_code = 200, headers = [], body = StatusBody ''created''\<rparr>,
             w @ [external_id it]))"

text \<open>
  \<^verbatim>\<open>float(str)\<close> on plain decimal literals: an optional sign, digits, an optional fraction.
  Python's \<^verbatim>\<open>float\<close> accepts more (blanks around, exponents, underscores, \<^verbatim>\<open>inf\<close>, \<^verbatim>\<open>nan\<close>);
  the general statements below take \<^verbatim>\<open>float\<close> as a parameter, and this function stands for it
  in the examples, whose headers are plain literals.
\<close>

definition digit_of :: "char \<Rightarrow> nat option" where
  "digit_of ch = (let k = (of_char ch :: nat) in if 48 \<le> k \<and> k \<le> 57 then Some (k - 48) else None)"

fun digits_of :: "string \<Rightarrow> nat \<Rightarrow> nat option" where
  "digits_of [] acc = Some acc"
| "digits_of (ch # cs) acc =
     (case digit_of ch of None \<Rightarrow> None | Some d \<Rightarrow> digits_of cs (10 * acc + d))"

definition unsigned_decimal :: "string \<Rightarrow> real option" where
  "unsigned_decimal s =
     (let ip = takeWhile (\<lambda>ch. ch \<noteq> CHR ''.'') s;
          fp = (case dropWhile (\<lambda>ch. ch \<noteq> CHR ''.'') s of [] \<Rightarrow> [] | dot # t \<Rightarrow> t)
      in if ip = [] \<and> fp = [] then None
         else (case (digits_of ip 0, digits_of fp 0) of
                 (Some i, Some f) \<Rightarrow> Some (real i + real f / 10 ^ length fp)
               | _ \<Rightarrow> None))"

definition float_decimal :: "string \<Rightarrow> real option" where
  "float_decimal s =
     (case s of
        [] \<Rightarrow> None
      | ch # cs \<Rightarrow>
          if ch = CHR ''-'' then map_option uminus (unsigned_decimal cs)
          else if ch = CHR ''+'' then unsigned_decimal cs
          else unsigned_decimal s)"

section \<open>Backoff\<close>

text \<open>
  C5. For attempt \<open>n \<ge> 1\<close>, base \<open>b > 0\<close>, cap \<open>c > 0\<close> and a jitter draw \<open>r\<close> in \<open>[0, 1)\<close>,
  \<open>backoff\<close> returns \<open>min c (b * 2 ^ (n - 1)) * (0.5 + r)\<close>, which lies in
  \<open>[0.5 * min c (b * 2 ^ (n - 1)), 1.5 * min c (b * 2 ^ (n - 1)))\<close>. The arithmetic is that of
  the reals; the draw is the generator's next value.
\<close>

theorem backoff_formula_bound:
  assumes "1 \<le> n" and "0 < b" and "0 < c"
    and "0 \<le> rng st (draws st)" and "rng st (draws st) < 1"
  shows "fst (backoff n b c st) = min c (b * 2 ^ nat (n - 1)) * (0.5 + rng st (draws st))
    \<and> 0.5 * min c (b * 2 ^ nat (n - 1)) \<le> fst (backoff n b c st)
    \<and> fst (backoff n b c st) < 1.5 * min c (b * 2 ^ nat (n - 1))"
proof -
  let ?m = "min c (b * 2 ^ nat (n - 1))"
  let ?r = "rng st (draws st)"
  have val: "fst (backoff n b c st) = ?m * (0.5 + ?r)"
    using assms(1) by (simp add: backoff_def random_random_def pow2_def Let_def)
  have pos: "0 < ?m"
    using assms(2,3) by simp
  have lo: "0.5 * ?m \<le> ?m * (0.5 + ?r)"
    using pos assms(4) by (simp add: algebra_simps)
  have "?m * (0.5 + ?r) < ?m * 1.5"
    using pos assms(5) by (intro mult_strict_left_mono) auto
  then have hi: "?m * (0.5 + ?r) < 1.5 * ?m"
    by (simp add: mult.commute)
  show ?thesis
    using val lo hi by simp
qed

theorem backoff_formula_bound_witness:
  "(1::int) \<le> 3 \<and> (0::real) < 0.4 \<and> (0::real) < 5
    \<and> fst (backoff 3 0.4 5 \<lparr>remote = (), exchanges = [], slept = [], rng = (\<lambda>i. 1 / 4),
         draws = 0, report_file = None\<rparr>) = 1.2
    \<and> 0.8 \<le> fst (backoff 3 0.4 5 \<lparr>remote = (), exchanges = [], slept = [], rng = (\<lambda>i. 1 / 4),
         draws = 0, report_file = None\<rparr>)
    \<and> fst (backoff 3 0.4 5 \<lparr>remote = (), exchanges = [], slept = [], rng = (\<lambda>i. 1 / 4),
         draws = 0, report_file = None\<rparr>) < 2.4"
  using backoff_formula_bound [of 3 "0.4" 5
      "\<lparr>remote = (), exchanges = [], slept = [], rng = (\<lambda>i. 1 / 4), draws = 0, report_file = None\<rparr>"]
  by simp

section \<open>Properties of the retry executor\<close>

lemma backoff_frame [simp]:
  "exchanges (snd (backoff a b c st)) = exchanges st"
  "remote (snd (backoff a b c st)) = remote st"
  "slept (snd (backoff a b c st)) = slept st"
  "report_file (snd (backoff a b c st)) = report_file st"
  "rng (snd (backoff a b c st)) = rng st"
  by (simp_all add: backoff_def random_random_def Let_def)

lemma sleep_s_frame [simp]:
  "exchanges (snd (sleep_s f resp retry a st)) = exchanges st"
  "remote (snd (sleep_s f resp retry a st)) = remote st"
  "slept (snd (sleep_s f resp retry a st)) = slept st"
  "report_file (snd (sleep_s f resp retry a st)) = report_file st"
  "rng (snd (sleep_s f resp retry a st)) = rng st"
  by (simp_all add: sleep_s_def split: option.splits)

lemma time_sleep_frame:
  "time_sleep v st = (r, st') \<Longrightarrow> exchanges st' = exchanges st \<and> remote st' = remote st
     \<and> report_file st' = report_file st \<and> rng st' = rng st \<and> draws st' = draws st"
  by (auto simp: time_sleep_def split: if_splits)

lemma snd_eqD: "f x = (a, b) \<Longrightarrow> b = snd (f x)"
  by simp

lemma request_attempt_frame:
  assumes "request_attempt f c req retry a le st = (fl, st')"
  shows "exchanges st' = exchanges st @ [(req, fst (c req (remote st)))]
    \<and> remote st' = snd (c req (remote st)) \<and> report_file st' = report_file st \<and> rng st' = rng st"
  using assms
  unfolding request_attempt_def Let_def
  by (auto split: prod.splits outcome.splits if_splits sum.splits
      dest!: time_sleep_frame dest: snd_eqD)

lemma request_attempt_Return:
  assumes "request_attempt f c req retry a le st = (Return resp, st')"
  shows "fst (c req (remote st)) = Responds resp \<and> status_code resp < 400 \<and> slept st' = slept st"
  using assms
  unfolding request_attempt_def Let_def
  by (auto split: prod.splits outcome.splits if_splits sum.splits simp: raise_for_status_def)

lemma request_attempt_Continue:
  assumes "request_attempt f c req retry a le st = (Continue le', st')"
  shows "a < max_attempts retry \<and> \<not> succeeded (fst (c req (remote st)))"
  using assms
  unfolding request_attempt_def Let_def
  by (auto split: prod.splits outcome.splits if_splits sum.splits simp: raise_for_status_def succeeded_def)

lemma request_attempt_Raise_last:
  assumes "request_attempt f c req retry a le st = (Raise e, st')" and "max_attempts retry \<le> a"
  shows "e = failure (fst (c req (remote st)))"
  using assms
  unfolding request_attempt_def Let_def
  by (auto split: prod.splits outcome.splits if_splits sum.splits simp: raise_for_status_def failure_def)

lemma request_loop_trace:
  assumes "request_loop f c req retry a le st = (r, st')" and "a \<le> max_attempts retry"
  shows "\<exists>outs. outs \<noteq> [] \<and> exchanges st' = exchanges st @ map (Pair req) outs
     \<and> int (length outs) \<le> max_attempts retry - a + 1
     \<and> (int (length outs) = max_attempts retry - a + 1 \<and> \<not> succeeded (last outs)
          \<longrightarrow> r = Inl (failure (last outs)))
     \<and> (\<forall>resp. r = Inr resp \<longrightarrow> status_code resp < 400 \<and> last outs = Responds resp)
     \<and> report_file st' = report_file st \<and> rng st' = rng st"
  using assms
proof (induction f c req retry a le st rule: request_loop.induct)
  case (1 f c req retry a le st)
  obtain fl st1 where att: "request_attempt f c req retry a le st = (fl, st1)"
    by (cases "request_attempt f c req retry a le st")
  let ?out = "fst (c req (remote st))"
  note fr = request_attempt_frame [OF att]
  show ?case
  proof (cases fl)
    case (Return resp)
    with att "1.prems" have r: "r = Inr resp" "st' = st1"
      by (simp_all add: request_loop.simps [of f c req retry a])
    from request_attempt_Return [OF att [unfolded Return]]
    have "?out = Responds resp" "status_code resp < 400" by simp_all
    then show ?thesis
      using fr r "1.prems"(2)
      by (intro exI [of _ "[?out]"]) (simp add: succeeded_def)
  next
    case (Raise e)
    with att "1.prems" have r: "r = Inl e" "st' = st1"
      by (simp_all add: request_loop.simps [of f c req retry a])
    have "max_attempts retry \<le> a \<Longrightarrow> e = failure ?out"
      using request_attempt_Raise_last [OF att [unfolded Raise]] by simp
    then show ?thesis
      using fr r "1.prems"(2)
      by (intro exI [of _ "[?out]"]) auto
  next
    case (Continue le')
    from request_attempt_Continue [OF att [unfolded Continue]]
    have lt: "a < max_attempts retry" by simp
    from att Continue "1.prems" have rec: "request_loop f c req retry (a + 1) le' st1 = (r, st')"
      by (simp add: request_loop.simps [of f c req retry a])
    have "a + 1 \<le> max_attempts retry" using lt by simp
    from "1.IH" [OF "1.prems"(2) att [symmetric] Continue rec this]
    obtain outs where outs: "outs \<noteq> [] \<and> exchanges st' = exchanges st1 @ map (Pair req) outs
     \<and> int (length outs) \<le> max_attempts retry - (a + 1) + 1
     \<and> (int (length outs) = max_attempts retry - (a + 1) + 1 \<and> \<not> succeeded (last outs)
          \<longrightarrow> r = Inl (failure (last outs)))
     \<and> (\<forall>resp. r = Inr resp \<longrightarrow> status_code resp < 400 \<and> last outs = Responds resp)
     \<and> report_file st' = report_file st1 \<and> rng st' = rng st1"
      by blast
    have o1: "outs \<noteq> []" and o2: "exchanges st' = exchanges st1 @ map (Pair req) outs"
      and o3: "int (length outs) \<le> max_attempts retry - (a + 1) + 1"
      and o4: "int (length outs) = max_attempts retry - (a + 1) + 1 \<and> \<not> succeeded (last outs)
          \<longrightarrow> r = Inl (failure (last outs))"
      and o5: "\<forall>resp. r = Inr resp \<longrightarrow> status_code resp < 400 \<and> last outs = Responds resp"
      and o6: "report_file st' = report_file st1" and o7: "rng st' = rng st1"
      using outs by blast+
    have l: "last (?out # outs) = last outs"
      using o1 by simp
    have e: "exchanges st' = exchanges st @ map (Pair req) (?out # outs)"
      using o2 fr by simp
    have n: "int (length (?out # outs)) \<le> max_attempts retry - a + 1"
      using o3 by simp
    have x: "int (length (?out # outs)) = max_attempts retry - a + 1 \<and> \<not> succeeded (last (?out # outs))
          \<longrightarrow> r = Inl (failure (last (?out # outs)))"
      using o4 unfolding l by simp
    have y: "\<forall>resp. r = Inr resp \<longrightarrow> status_code resp < 400 \<and> last (?out # outs) = Responds resp"
      using o5 unfolding l by blast
    have z: "report_file st' = report_file st \<and> rng st' = rng st"
      using o6 o7 fr by simp
    show ?thesis
      using e n x y z by blast
  qed
qed

lemmas run_defs = request_with_retries_def request_attempt_def RetryPolicy_def
  should_retry_def sleep_s_def backoff_def random_random_def pow2_def time_sleep_def
  raise_for_status_def is_transient_def Let_def

lemmas float_defs = float_decimal_def unsigned_decimal_def digit_of_def

text \<open>
  C7. With a policy of at least one attempt, \<^verbatim>\<open>request_with_retries\<close> makes at most
  \<open>max_attempts\<close> attempts; when it has made all of them and the last one was no success, it
  raises the failure of that last attempt (the status error of the last response, or the last
  exception of the client); and every response it returns has a status below 400.
\<close>

theorem retry_budget_exhausted:
  assumes "request_with_retries float_of client req retry st = (r, st')"
    and "1 \<le> max_attempts retry"
  shows "int (length (outcomes_since st st')) \<le> max_attempts retry
    \<and> (int (length (outcomes_since st st')) = max_attempts retry
          \<and> \<not> succeeded (last (outcomes_since st st'))
        \<longrightarrow> r = Inl (failure (last (outcomes_since st st'))))
    \<and> (\<forall>resp. r = Inr resp \<longrightarrow> status_code resp < 400)"
proof -
  from request_loop_trace [OF assms(1) [unfolded request_with_retries_def] assms(2)]
  obtain outs where outs: "outs \<noteq> [] \<and> exchanges st' = exchanges st @ map (Pair req) outs
     \<and> int (length outs) \<le> max_attempts retry - 1 + 1
     \<and> (int (length outs) = max_attempts retry - 1 + 1 \<and> \<not> succeeded (last outs)
          \<longrightarrow> r = Inl (failure (last outs)))
     \<and> (\<forall>resp. r = Inr resp \<longrightarrow> status_code resp < 400 \<and> last outs = Responds resp)"
    by blast
  have eq: "outcomes_since st st' = outs"
    using outs by (simp add: outcomes_since_def comp_def)
  have a: "int (length outs) \<le> max_attempts retry"
    using outs by linarith
  have b: "int (length outs) = max_attempts retry \<and> \<not> succeeded (last outs)
        \<longrightarrow> r = Inl (failure (last outs))"
    using outs by force
  have c: "\<forall>resp. r = Inr resp \<longrightarrow> status_code resp < 400"
    using outs by blast
  show ?thesis
    unfolding eq using a b c by blast
qed


theorem retry_budget_exhausted_witness:
  "1 \<le> max_attempts RetryPolicy
   \<and> int (length (outcomes_since (fresh ()) (snd (request_with_retries float_decimal
         (always \<lparr>status_code = 503, headers = [], body = OtherBody\<rparr>)
         (GET_source_items 1 10) RetryPolicy (fresh ()))))) = max_attempts RetryPolicy
   \<and> \<not> succeeded (Responds \<lparr>status_code = 503, headers = [], body = OtherBody\<rparr>)
   \<and> fst (request_with_retries float_decimal
         (always \<lparr>status_code = 503, headers = [], body = OtherBody\<rparr>)
         (GET_source_items 1 10) RetryPolicy (fresh ()))
       = Inl (HTTPStatusError \<lparr>status_code = 503, headers = [], body = OtherBody\<rparr>)"
proof -
  let ?r = "\<lparr>status_code = 503, headers = [], body = OtherBody\<rparr>"
  let ?run = "request_with_retries float_decimal (always ?r) (GET_source_items 1 10)
     RetryPolicy (fresh ())"
  have ex: "exchanges (snd ?run) = replicate 6 (GET_source_items 1 10, Responds ?r)"
    by (simp add: run_defs request_loop.simps always_def fresh_def numeral_eq_Suc)
  have os: "outcomes_since (fresh ()) (snd ?run) = replicate 6 (Responds ?r)"
    unfolding outcomes_since_def ex by (simp add: fresh_def numeral_eq_Suc)
  have m: "1 \<le> max_attempts RetryPolicy" "max_attempts RetryPolicy = 6"
    by (simp_all add: RetryPolicy_def)
  have ns: "\<not> succeeded (Responds ?r)"
    by (simp add: succeeded_def)
  have l: "last (outcomes_since (fresh ()) (snd ?run)) = Responds ?r"
    unfolding os by (simp add: numeral_eq_Suc)
  from retry_budget_exhausted [where float_of = float_decimal and client = "always ?r"
      and req = "GET_source_items 1 10" and retry = RetryPolicy and st = "fresh ()",
      OF prod.collapse [symmetric] m(1)]
  have "fst ?run = Inl (failure (Responds ?r))"
    unfolding l using ns os m(2) by simp
  then show ?thesis
    using m ns os by (simp add: failure_def)
qed




text \<open>
  C4 (the code at the failing input). A 429 whose \<^verbatim>\<open>Retry-After\<close> is \<^verbatim>\<open>-1\<close>: the header
  parses as a float, so no backoff is computed; \<^verbatim>\<open>time.sleep(-1.0)\<close> raises \<^verbatim>\<open>ValueError\<close>,
  which leaves \<^verbatim>\<open>request_with_retries\<close> after one attempt and without any sleep.
\<close>

theorem retry_after_negative_raises:
  "fst (request_with_retries float_decimal
          (always \<lparr>status_code = 429, headers = [(''Retry-After'', ''-1'')], body = OtherBody\<rparr>)
          (GET_source_items 1 10) RetryPolicy (fresh ()))
     = Inl (ValueError ''sleep length must be non-negative'')
   \<and> slept (snd (request_with_retries float_decimal
          (always \<lparr>status_code = 429, headers = [(''Retry-After'', ''-1'')], body = OtherBody\<rparr>)
          (GET_source_items 1 10) RetryPolicy (fresh ()))) = []
   \<and> length (exchanges (snd (request_with_retries float_decimal
          (always \<lparr>status_code = 429, headers = [(''Retry-After'', ''-1'')], body = OtherBody\<rparr>)
          (GET_source_items 1 10) RetryPolicy (fresh ())))) = 1"
  by (simp add: run_defs request_loop.simps always_def fresh_def float_defs)

section \<open>Properties of the reconciler\<close>

lemma request_with_retries_sent:
  assumes "request_with_retries f c req RetryPolicy st = (r, st')"
  shows "\<exists>n. 1 \<le> n \<and> n \<le> 6 \<and> exchanges st' = exchanges st @ map (Pair req) (outcomes_since st st')
     \<and> length (outcomes_since st st') = n
     \<and> report_file st' = report_file st \<and> rng st' = rng st
     \<and> (\<forall>resp. r = Inr resp \<longrightarrow> last (outcomes_since st st') = Responds resp)"
proof -
  have m: "1 \<le> max_attempts RetryPolicy"
    by (simp add: RetryPolicy_def)
  from request_loop_trace [OF assms [unfolded request_with_retries_def] m]
  obtain outs where outs: "outs \<noteq> []" "exchanges st' = exchanges st @ map (Pair req) outs"
     "int (length outs) \<le> max_attempts RetryPolicy - 1 + 1"
     "\<forall>resp. r = Inr resp \<longrightarrow> status_code resp < 400 \<and> last outs = Responds resp"
     "report_file st' = report_file st" "rng st' = rng st"
    by blast
  have eq: "outcomes_since st st' = outs"
    using outs(2) by (simp add: outcomes_since_def comp_def)
  have "1 \<le> length outs"
    using outs(1) by (cases outs) simp_all
  moreover have "length outs \<le> 6"
    using outs(3) by (simp add: RetryPolicy_def)
  ultimately show ?thesis
    unfolding eq using outs(2,4,5,6) by blast
qed

lemma submit_sent:
  assumes "submit f c it st = (r, st')"
  shows "\<exists>n. 1 \<le> n \<and> n \<le> 6 \<and> sent_since st st' = replicate n (sink_request it)
     \<and> length (exchanges st) \<le> length (exchanges st')
     \<and> take (length (exchanges st)) (exchanges st') = exchanges st
     \<and> report_file st' = report_file st \<and> rng st' = rng st"
proof -
  obtain r0 where rw: "request_with_retries f c (sink_request it) RetryPolicy st = (r0, st')"
    using assms by (auto simp: submit_def split: prod.splits sum.splits)
  from request_with_retries_sent [OF rw]
  obtain n where n: "1 \<le> n" "n \<le> 6"
      "exchanges st' = exchanges st @ map (Pair (sink_request it)) (outcomes_since st st')"
      "length (outcomes_since st st') = n"
      "report_file st' = report_file st" "rng st' = rng st"
    by blast
  have "sent_since st st' = map fst (map (Pair (sink_request it)) (outcomes_since st st'))"
    unfolding sent_since_def by (subst n(3)) simp
  also have "\<dots> = replicate n (sink_request it)"
    using n(4) by (simp add: comp_def map_replicate_const)
  finally have s: "sent_since st st' = replicate n (sink_request it)" .
  have l: "length (exchanges st) \<le> length (exchanges st')"
    by (subst n(3)) simp
  have t: "take (length (exchanges st)) (exchanges st') = exchanges st"
    by (subst n(3)) simp
  show ?thesis
    using n(1,2,5,6) s l t by blast
qed

lemma sent_since_trans:
  assumes "take (length (exchanges a)) (exchanges b) = exchanges a"
    and "length (exchanges a) \<le> length (exchanges b)"
    and "take (length (exchanges b)) (exchanges c) = exchanges b"
    and "length (exchanges b) \<le> length (exchanges c)"
  shows "sent_since a c = sent_since a b @ sent_since b c
    \<and> take (length (exchanges a)) (exchanges c) = exchanges a
    \<and> length (exchanges a) \<le> length (exchanges c)"
proof -
  obtain x where x: "exchanges b = exchanges a @ x"
    using assms(1) by (metis append_take_drop_id)
  obtain y where y: "exchanges c = exchanges b @ y"
    using assms(3) by (metis append_take_drop_id)
  show ?thesis
    by (simp add: sent_since_def x y)
qed


lemma add_stats_zero [simp]: "add_stats zero_stats s = s" "add_stats s zero_stats = s"
  by (simp_all add: add_stats_def zero_stats_def)

lemma add_stats_assoc: "add_stats (add_stats a b) c = add_stats a (add_stats b c)"
  by (simp add: add_stats_def)

lemma upsert_one_shift:
  "upsert_one f c it s st
     = (add_stats s (fst (upsert_one f c it zero_stats st)), snd (upsert_one f c it zero_stats st))"
  by (simp add: upsert_one_def add_stats_def zero_stats_def split: prod.splits sum.splits)

lemma upsert_one_unit:
  assumes "upsert_one f c it zero_stats st = (z, st')"
  shows "created_count z + updated_count z + failed_count z = 1
    \<and> 0 \<le> created_count z \<and> 0 \<le> updated_count z \<and> 0 \<le> failed_count z
    \<and> st' = snd (submit f c it st)
    \<and> (failed_count z = 1 \<longleftrightarrow> (\<exists>e. fst (submit f c it st) = Inl e))"
  using assms
  by (auto simp: upsert_one_def zero_stats_def split: prod.splits sum.splits if_splits)

lemma upsert_loop_shift:
  "upsert_loop f c xs s st
     = (add_stats s (fst (upsert_loop f c xs zero_stats st)), snd (upsert_loop f c xs zero_stats st))"
proof (induction xs arbitrary: s st)
  case Nil
  show ?case by simp
next
  case (Cons x xs)
  obtain z st1 where z: "upsert_one f c x zero_stats st = (z, st1)"
    by (cases "upsert_one f c x zero_stats st")
  have s1: "upsert_one f c x s st = (add_stats s z, st1)"
    by (subst upsert_one_shift) (simp add: z)
  have "upsert_loop f c (x # xs) s st = upsert_loop f c xs (add_stats s z) st1"
    by (simp add: s1)
  also have "\<dots> = (add_stats (add_stats s z) (fst (upsert_loop f c xs zero_stats st1)),
      snd (upsert_loop f c xs zero_stats st1))"
    by (rule Cons.IH)
  finally have l: "upsert_loop f c (x # xs) s st
      = (add_stats s (add_stats z (fst (upsert_loop f c xs zero_stats st1))),
         snd (upsert_loop f c xs zero_stats st1))"
    by (simp add: add_stats_assoc)
  have "upsert_loop f c (x # xs) zero_stats st = upsert_loop f c xs z st1"
    by (simp add: z)
  also have "\<dots> = (add_stats z (fst (upsert_loop f c xs zero_stats st1)),
      snd (upsert_loop f c xs zero_stats st1))"
    by (rule Cons.IH)
  finally show ?case
    using l by simp
qed

lemma upsert_loop_append:
  "upsert_loop f c (xs @ ys) s st
     = upsert_loop f c ys (fst (upsert_loop f c xs s st)) (snd (upsert_loop f c xs s st))"
  by (induction xs arbitrary: s st) (simp_all split: prod.splits)

lemma upsert_loop_tally:
  assumes "upsert_loop f c xs zero_stats st = (s, st')"
  shows "created_count s + updated_count s + failed_count s = int (length xs)
    \<and> 0 \<le> created_count s \<and> 0 \<le> updated_count s \<and> 0 \<le> failed_count s
    \<and> (\<exists>ns. length ns = length xs \<and> (\<forall>n \<in> set ns. 1 \<le> n \<and> n \<le> 6)
          \<and> sent_since st st' = concat (map (\<lambda>(n, it). replicate n (sink_request it)) (zip ns xs)))
    \<and> take (length (exchanges st)) (exchanges st') = exchanges st
    \<and> length (exchanges st) \<le> length (exchanges st')
    \<and> report_file st' = report_file st"
  using assms
proof (induction xs arbitrary: s st st')
  case Nil
  then show ?case by (auto simp: zero_stats_def sent_since_def)
next
  case (Cons x xs)
  obtain z st1 where z: "upsert_one f c x zero_stats st = (z, st1)"
    by (cases "upsert_one f c x zero_stats st")
  obtain t st2 where t: "upsert_loop f c xs zero_stats st1 = (t, st2)"
    by (cases "upsert_loop f c xs zero_stats st1")
  have "upsert_loop f c (x # xs) zero_stats st = upsert_loop f c xs z st1"
    by (simp add: z)
  also have "\<dots> = (add_stats z t, st2)"
    by (subst upsert_loop_shift) (simp add: t)
  finally have res: "s = add_stats z t" "st' = st2"
    using Cons.prems by simp_all
  note u = upsert_one_unit [OF z]
  have sub: "submit f c x st = (fst (submit f c x st), st1)"
    using u by simp
  from submit_sent [OF sub]
  obtain n where n: "1 \<le> n" "n \<le> 6" "sent_since st st1 = replicate n (sink_request x)"
     "length (exchanges st) \<le> length (exchanges st1)"
     "take (length (exchanges st)) (exchanges st1) = exchanges st"
     "report_file st1 = report_file st"
    by blast
  from Cons.IH [OF t]
  obtain ns where ns: "length ns = length xs" "\<forall>n \<in> set ns. 1 \<le> n \<and> n \<le> 6"
     "sent_since st1 st2 = concat (map (\<lambda>(n, it). replicate n (sink_request it)) (zip ns xs))"
    by blast
  from Cons.IH [OF t]
  have ih: "created_count t + updated_count t + failed_count t = int (length xs)"
     "0 \<le> created_count t" "0 \<le> updated_count t" "0 \<le> failed_count t"
     "take (length (exchanges st1)) (exchanges st2) = exchanges st1"
     "length (exchanges st1) \<le> length (exchanges st2)"
     "report_file st2 = report_file st1"
    by blast+
  note tr = sent_since_trans [OF n(5) n(4) ih(5) ih(6)]
  have a: "created_count s + updated_count s + failed_count s = int (length (x # xs))"
    using u ih(1) unfolding res by (simp add: add_stats_def)
  have b: "0 \<le> created_count s \<and> 0 \<le> updated_count s \<and> 0 \<le> failed_count s"
    using u ih(2,3,4) unfolding res by (simp add: add_stats_def)
  have c: "length (n # ns) = length (x # xs) \<and> (\<forall>k \<in> set (n # ns). 1 \<le> k \<and> k \<le> 6)
     \<and> sent_since st st' = concat (map (\<lambda>(n, it). replicate n (sink_request it)) (zip (n # ns) (x # xs)))"
    using n(1,2,3) ns tr unfolding res by simp
  have d: "take (length (exchanges st)) (exchanges st') = exchanges st
    \<and> length (exchanges st) \<le> length (exchanges st')
    \<and> report_file st' = report_file st"
    using tr n(6) ih(7) unfolding res by simp
  show ?case
    using a b c d by blast
qed

lemmas demo_defs = demo_service_def fresh_def sink_request_def submit_def upsert_one_def
  upsert_sink_items_def json_status_def json_items_def json_next_page_def

text \<open>
  C9. The reconciler handles every record it is given once, in order: the requests it sends
  are, record by record, between one and six copies (the attempts of one
  \<^verbatim>\<open>request_with_retries\<close>) of that record's upsert request. Each record increments exactly
  one counter, so the three counters add up to the number of records.
\<close>

theorem tally_invariant:
  assumes "upsert_sink_items float_of client xs st = (s, st')"
  shows "failed_count s + created_count s + updated_count s = int (length xs)
    \<and> 0 \<le> failed_count s \<and> 0 \<le> created_count s \<and> 0 \<le> updated_count s
    \<and> (\<exists>ns. length ns = length xs \<and> (\<forall>n \<in> set ns. 1 \<le> n \<and> n \<le> 6)
          \<and> sent_since st st' = concat (map (\<lambda>(n, it). replicate n (sink_request it)) (zip ns xs)))"
proof -
  have "upsert_loop float_of client xs zero_stats st = (s, st')"
    using assms by (simp add: upsert_sink_items_def zero_stats_def)
  from upsert_loop_tally [OF this] show ?thesis
    by (simp add: add.commute add.left_commute)
qed

theorem tally_invariant_witness:
  "fst (upsert_sink_items float_decimal (demo_service [] ''b'')
      [\<lparr>external_id = ''a'', name = ''A'', item_value = 1\<rparr>,
       \<lparr>external_id = ''b'', name = ''B'', item_value = 2\<rparr>] (fresh []))
     = \<lparr>created_count = 1, updated_count = 0, failed_count = 1\<rparr>
   \<and> sent_since (fresh []) (snd (upsert_sink_items float_decimal (demo_service [] ''b'')
      [\<lparr>external_id = ''a'', name = ''A'', item_value = 1\<rparr>,
       \<lparr>external_id = ''b'', name = ''B'', item_value = 2\<rparr>] (fresh [])))
     = concat (map (\<lambda>(n, it). replicate n (sink_request it))
         (zip [1, 6] [\<lparr>external_id = ''a'', name = ''A'', item_value = 1\<rparr>,
                      \<lparr>external_id = ''b'', name = ''B'', item_value = 2\<rparr>]))
   \<and> (\<exists>ns. length ns = length [\<lparr>external_id = ''a'', name = ''A'', item_value = 1\<rparr>,
                      \<lparr>external_id = ''b'', name = ''B'', item_value = 2\<rparr>]
         \<and> (\<forall>n \<in> set ns. 1 \<le> n \<and> n \<le> 6)
         \<and> sent_since (fresh []) (snd (upsert_sink_items float_decimal (demo_service [] ''b'')
              [\<lparr>external_id = ''a'', name = ''A'', item_value = 1\<rparr>,
               \<lparr>external_id = ''b'', name = ''B'', item_value = 2\<rparr>] (fresh [])))
            = concat (map (\<lambda>(n, it). replicate n (sink_request it))
                (zip ns [\<lparr>external_id = ''a'', name = ''A'', item_value = 1\<rparr>,
                         \<lparr>external_id = ''b'', name = ''B'', item_value = 2\<rparr>])))"
proof -
  let ?xs = "[\<lparr>external_id = ''a'', name = ''A'', item_value = 1\<rparr>,
       \<lparr>external_id = ''b'', name = ''B'', item_value = 2\<rparr>]"
  let ?R = "upsert_sink_items float_decimal (demo_service [] ''b'') ?xs (fresh [])"
  have 1: "fst ?R = \<lparr>created_count = 1, updated_count = 0, failed_count = 1\<rparr>"
    by (simp add: run_defs demo_defs request_loop.simps)
  have 2: "sent_since (fresh []) (snd ?R)
     = concat (map (\<lambda>(n, it). replicate n (sink_request it)) (zip [1, 6] ?xs))"
    by (simp add: run_defs demo_defs request_loop.simps sent_since_def numeral_eq_Suc)
  from tally_invariant [where float_of = float_decimal and client = "demo_service [] ''b''"
      and xs = ?xs and st = "fresh []", OF prod.collapse [symmetric]]
  have 3: "\<exists>ns. length ns = length ?xs \<and> (\<forall>n \<in> set ns. 1 \<le> n \<and> n \<le> 6)
         \<and> sent_since (fresh []) (snd ?R)
            = concat (map (\<lambda>(n, it). replicate n (sink_request it)) (zip ns ?xs))"
    by blast
  show ?thesis
    using 1 2 3 by blast
qed

text \<open>
  C8. When the \<^verbatim>\<open>try\<close> block of one record raises (its retry budget is exhausted, or anything
  else goes wrong), that record adds exactly one to \<^verbatim>\<open>failed_count\<close> and the records after it
  are processed as they would be from the state the failure left: the tally is the tally of
  the records before, plus one failure, plus the tally of the records after. And when the
  fetch has returned and the reconciler has run, \<^verbatim>\<open>main\<close> returns exit code 2 if
  \<^verbatim>\<open>failed_count\<close> is positive and 0 if it is zero.
\<close>

theorem failure_isolation:
  assumes "upsert_sink_items float_of client pre st = (s0, st0)"
    and "submit float_of client x st0 = (Inl e, st1)"
    and "upsert_sink_items float_of client post st1 = (s2, st2)"
  shows "upsert_sink_items float_of client (pre @ x # post) st
           = (\<lparr>created_count = created_count s0 + created_count s2,
               updated_count = updated_count s0 + updated_count s2,
               failed_count = failed_count s0 + 1 + failed_count s2\<rparr>, st2)
    \<and> (\<not> dry_run as
          \<and> fetch_all_source_items float_of client (limit as) sta = Some (Inr xs, stb)
          \<and> upsert_sink_items float_of client xs stb = (s, stc)
        \<longrightarrow> main float_of client as rid now sta
              = Some (Inr (if 0 < failed_count s then 2 else 0), stc))"
proof -
  have p: "upsert_loop float_of client pre zero_stats st = (s0, st0)"
    and q: "upsert_loop float_of client post zero_stats st1 = (s2, st2)"
    using assms(1,3) by (simp_all add: upsert_sink_items_def zero_stats_def)
  have one: "upsert_one float_of client x s0 st0 = (s0\<lparr>failed_count := failed_count s0 + 1\<rparr>, st1)"
    using assms(2) by (simp add: upsert_one_def)
  have "upsert_loop float_of client (pre @ x # post) zero_stats st
      = upsert_loop float_of client (x # post) s0 st0"
    by (simp add: upsert_loop_append p)
  also have "\<dots> = upsert_loop float_of client post (s0\<lparr>failed_count := failed_count s0 + 1\<rparr>) st1"
    by (simp add: one)
  also have "\<dots> = (add_stats (s0\<lparr>failed_count := failed_count s0 + 1\<rparr>) s2, st2)"
    by (subst upsert_loop_shift) (simp add: q)
  finally have a: "upsert_sink_items float_of client (pre @ x # post) st
           = (\<lparr>created_count = created_count s0 + created_count s2,
               updated_count = updated_count s0 + updated_count s2,
               failed_count = failed_count s0 + 1 + failed_count s2\<rparr>, st2)"
    by (simp add: upsert_sink_items_def zero_stats_def add_stats_def)
  have b: "main float_of client as rid now sta
              = Some (Inr (if 0 < failed_count s then 2 else 0), stc)"
    if h: "\<not> dry_run as"
      "fetch_all_source_items float_of client (limit as) sta = Some (Inr xs, stb)"
      "upsert_sink_items float_of client xs stb = (s, stc)"
  proof -
    have "upsert_loop float_of client xs zero_stats stb = (s, stc)"
      using h(3) by (simp add: upsert_sink_items_def zero_stats_def)
    from upsert_loop_tally [OF this] have "0 \<le> failed_count s"
      by blast
    then have "(if failed_count s = 0 then 0 else 2) = (if 0 < failed_count s then 2 else (0::int))"
      by simp
    then show ?thesis
      using h by (simp add: main_def)
  qed
  show ?thesis
    using a b by blast
qed


theorem failure_isolation_witness:
  "fst (submit float_decimal
          (demo_service [\<lparr>external_id = ''a'', name = ''A'', item_value = 1\<rparr>,
                         \<lparr>external_id = ''b'', name = ''B'', item_value = 2\<rparr>,
                         \<lparr>external_id = ''c'', name = ''C'', item_value = 3\<rparr>] ''b'')
          \<lparr>external_id = ''b'', name = ''B'', item_value = 2\<rparr>
          (snd (upsert_sink_items float_decimal
             (demo_service [\<lparr>external_id = ''a'', name = ''A'', item_value = 1\<rparr>,
                            \<lparr>external_id = ''b'', name = ''B'', item_value = 2\<rparr>,
                            \<lparr>external_id = ''c'', name = ''C'', item_value = 3\<rparr>] ''b'')
             [\<lparr>external_id = ''a'', name = ''A'', item_value = 1\<rparr>]
             ((fresh [])\<lparr>exchanges := [(GET_source_items 1 10, Responds \<lparr>status_code = 200,
                headers = [], body = PageBody [\<lparr>external_id = ''a'', name = ''A'', item_value = 1\<rparr>,
                         \<lparr>external_id = ''b'', name = ''B'', item_value = 2\<rparr>,
                         \<lparr>external_id = ''c'', name = ''C'', item_value = 3\<rparr>] None\<rparr>)]\<rparr>))))
     = Inl (HTTPStatusError \<lparr>status_code = 503, headers = [], body = OtherBody\<rparr>)
   \<and> fst (upsert_sink_items float_decimal
          (demo_service [\<lparr>external_id = ''a'', name = ''A'', item_value = 1\<rparr>,
                         \<lparr>external_id = ''b'', name = ''B'', item_value = 2\<rparr>,
                         \<lparr>external_id = ''c'', name = ''C'', item_value = 3\<rparr>] ''b'')
          ([\<lparr>external_id = ''a'', name = ''A'', item_value = 1\<rparr>]
            @ \<lparr>external_id = ''b'', name = ''B'', item_value = 2\<rparr>
            # [\<lparr>external_id = ''c'', name = ''C'', item_value = 3\<rparr>])
          ((fresh [])\<lparr>exchanges := [(GET_source_items 1 10, Responds \<lparr>status_code = 200,
                headers = [], body = PageBody [\<lparr>external_id = ''a'', name = ''A'', item_value = 1\<rparr>,
                         \<lparr>external_id = ''b'', name = ''B'', item_value = 2\<rparr>,
                         \<lparr>external_id = ''c'', name = ''C'', item_value = 3\<rparr>] None\<rparr>)]\<rparr>))
     = \<lparr>created_count = 2, updated_count = 0, failed_count = 1\<rparr>
   \<and> \<not> dry_run \<lparr>base_url = ''http://127.0.0.1:8000'', dry_run = False, limit = None\<rparr>
   \<and> map_option fst (main float_decimal
          (demo_service [\<lparr>external_id = ''a'', name = ''A'', item_value = 1\<rparr>,
                         \<lparr>external_id = ''b'', name = ''B'', item_value = 2\<rparr>,
                         \<lparr>external_id = ''c'', name = ''C'', item_value = 3\<rparr>] ''b'')
          \<lparr>base_url = ''http://127.0.0.1:8000'', dry_run = False, limit = None\<rparr>
          ''run'' ''now'' (fresh []))
     = Some (Inr 2)"
proof -
  let ?a = "\<lparr>external_id = ''a'', name = ''A'', item_value = 1\<rparr>"
  let ?b = "\<lparr>external_id = ''b'', name = ''B'', item_value = 2\<rparr>"
  let ?c = "\<lparr>external_id = ''c'', name = ''C'', item_value = 3\<rparr>"
  let ?svc = "demo_service [?a, ?b, ?c] ''b''"
  let ?as = "\<lparr>base_url = ''http://127.0.0.1:8000'', dry_run = False, limit = None\<rparr>"
  let ?stb = "(fresh [])\<lparr>exchanges := [(GET_source_items 1 10, Responds \<lparr>status_code = 200,
                headers = [], body = PageBody [?a, ?b, ?c] None\<rparr>)]\<rparr>"
  let ?Ua = "upsert_sink_items float_decimal ?svc [?a] ?stb"
  let ?Sb = "submit float_decimal ?svc ?b (snd ?Ua)"
  let ?Uc = "upsert_sink_items float_decimal ?svc [?c] (snd ?Sb)"
  let ?U = "upsert_sink_items float_decimal ?svc ([?a] @ ?b # [?c]) ?stb"
  have h1: "?Ua = (fst ?Ua, snd ?Ua)" and h3: "?Uc = (fst ?Uc, snd ?Uc)"
    and h5: "upsert_sink_items float_decimal ?svc ([?a] @ ?b # [?c]) ?stb = (fst ?U, snd ?U)"
    by simp_all
  have fb: "fst ?Sb = Inl (HTTPStatusError \<lparr>status_code = 503, headers = [], body = OtherBody\<rparr>)"
    by (simp add: run_defs demo_defs request_loop.simps)
  then have h2: "?Sb = (Inl (HTTPStatusError \<lparr>status_code = 503, headers = [], body = OtherBody\<rparr>), snd ?Sb)"
    by (metis prod.collapse)
  have h4: "fetch_all_source_items float_decimal ?svc (limit ?as) (fresh [])
      = Some (Inr ([?a] @ ?b # [?c]), ?stb)"
    by (simp add: fetch_all_source_items_def fetch_loop.simps max_pages_def page_size_def
        run_defs demo_defs request_loop.simps)
  have nd: "\<not> dry_run ?as"
    by simp
  have ca: "fst ?Ua = \<lparr>created_count = 1, updated_count = 0, failed_count = 0\<rparr>"
    by (simp add: run_defs demo_defs request_loop.simps)
  have cc: "fst ?Uc = \<lparr>created_count = 1, updated_count = 0, failed_count = 0\<rparr>"
    by (simp add: run_defs demo_defs request_loop.simps)
  note T = failure_isolation [where float_of = float_decimal and client = ?svc and pre = "[?a]"
      and x = ?b and post = "[?c]" and st = ?stb and as = ?as and sta = "fresh []"
      and xs = "[?a] @ ?b # [?c]" and stb = ?stb and rid = "''run''" and now = "''now''",
      OF h1 h2 h3]
  have u: "fst ?U = \<lparr>created_count = 2, updated_count = 0, failed_count = 1\<rparr>"
    using T unfolding ca cc by simp
  have "main float_decimal ?svc ?as ''run'' ''now'' (fresh [])
      = Some (Inr (if 0 < failed_count (fst ?U) then 2 else 0), snd ?U)"
    using T nd h4 h5 by blast
  then have m: "map_option fst (main float_decimal ?svc ?as ''run'' ''now'' (fresh [])) = Some (Inr 2)"
    unfolding u by simp
  show ?thesis
    using fb u nd m by blast
qed

section \<open>The reconciler against the demo sink\<close>

lemma sink_request_payload:
  "sink_request it = POST_sink_items [(''Idempotency-Key'', ''sync:'' @ external_id it)] it"
  by (cases it) (simp add: sink_request_def)

lemma sink_upsert_limited:
  assumes "(sink_write_calls a + 1) mod 5 = 0"
  shows "sink_upsert p a
    = (Responds \<lparr>status_code = 429, headers = [(''Retry-After'', ''1'')], body = OtherBody\<rparr>,
       a\<lparr>sink_write_calls := sink_write_calls a + 1\<rparr>)"
  using assms by (simp add: sink_upsert_def SINK_429_EVERY_N_CALLS_def http_exception_def)

lemma sink_upsert_stored:
  assumes "(sink_write_calls a + 1) mod 5 \<noteq> 0"
  shows "sink_upsert p a
    = (Responds \<lparr>status_code = 200, headers = [],
         body = StatusBody (if external_id p \<in> set (map fst (SINK_ITEMS_BY_EXTERNAL_ID a))
                            then ''updated'' else ''created'')\<rparr>,
       a\<lparr>sink_write_calls := sink_write_calls a + 1,
         SINK_ITEMS_BY_EXTERNAL_ID := AList.update (external_id p) p (SINK_ITEMS_BY_EXTERNAL_ID a)\<rparr>)"
  using assms by (simp add: sink_upsert_def SINK_429_EVERY_N_CALLS_def ok_json_def Let_def)

lemma request_app_sink:
  assumes "float_of ''1'' = Some 1"
  shows "\<exists>st'. request_with_retries float_of app_client (sink_request it) RetryPolicy st
      = (Inr \<lparr>status_code = 200, headers = [],
            body = StatusBody (if external_id it \<in> set (map fst (SINK_ITEMS_BY_EXTERNAL_ID (remote st)))
                               then ''updated'' else ''created'')\<rparr>, st')
    \<and> SINK_ITEMS_BY_EXTERNAL_ID (remote st')
        = AList.update (external_id it) it (SINK_ITEMS_BY_EXTERNAL_ID (remote st))"
proof (cases "(sink_write_calls (remote st) + 1) mod 5 = 0")
  case False
  show ?thesis
    by (simp add: request_with_retries_def request_loop.simps [of _ _ _ _ 1] request_attempt_def
        sink_request_payload app_client_def sink_upsert_stored [OF False] RetryPolicy_def)
next
  case True
  then have nxt: "(sink_write_calls (remote st) + 1 + 1) mod 5 \<noteq> 0"
    by presburger
  show ?thesis
    using nxt
    by (simp add: request_with_retries_def request_loop.simps [of _ _ _ _ 1]
        request_loop.simps [of _ _ _ _ 2] request_attempt_def
        sink_request_payload app_client_def sink_upsert_limited [OF True] sink_upsert_stored RetryPolicy_def
        should_retry_def sleep_s_def assms time_sleep_def)
qed


lemma length_alist_update:
  "length (AList.update k v al) = (if k \<in> set (map fst al) then length al else Suc (length al))"
  by (induction al) auto

lemma submit_app_sink:
  assumes "float_of ''1'' = Some 1"
  shows "\<exists>st'. submit float_of app_client it st
      = (Inr (if external_id it \<in> set (map fst (SINK_ITEMS_BY_EXTERNAL_ID (remote st)))
              then ''updated'' else ''created''), st')
    \<and> SINK_ITEMS_BY_EXTERNAL_ID (remote st')
        = AList.update (external_id it) it (SINK_ITEMS_BY_EXTERNAL_ID (remote st))"
proof -
  from request_app_sink [where float_of = float_of and it = it and st = st, OF assms]
  obtain st' where r: "request_with_retries float_of app_client (sink_request it) RetryPolicy st
      = (Inr \<lparr>status_code = 200, headers = [],
            body = StatusBody (if external_id it \<in> set (map fst (SINK_ITEMS_BY_EXTERNAL_ID (remote st)))
                               then ''updated'' else ''created'')\<rparr>, st')"
    and k: "SINK_ITEMS_BY_EXTERNAL_ID (remote st')
        = AList.update (external_id it) it (SINK_ITEMS_BY_EXTERNAL_ID (remote st))"
    by blast
  have "submit float_of app_client it st
      = (Inr (if external_id it \<in> set (map fst (SINK_ITEMS_BY_EXTERNAL_ID (remote st)))
              then ''updated'' else ''created''), st')"
    by (simp add: submit_def r json_status_def)
  then show ?thesis
    using k by blast
qed

lemma upsert_loop_app:
  assumes "float_of ''1'' = Some 1"
    and "upsert_loop float_of app_client xs s st = (s', st')"
  shows "failed_count s' = failed_count s
    \<and> set (map fst (SINK_ITEMS_BY_EXTERNAL_ID (remote st')))
        = set (map fst (SINK_ITEMS_BY_EXTERNAL_ID (remote st))) \<union> set (map external_id xs)
    \<and> (set (map external_id xs) \<subseteq> set (map fst (SINK_ITEMS_BY_EXTERNAL_ID (remote st))) \<longrightarrow>
          length (SINK_ITEMS_BY_EXTERNAL_ID (remote st')) = length (SINK_ITEMS_BY_EXTERNAL_ID (remote st))
          \<and> created_count s' = created_count s
          \<and> updated_count s' = updated_count s + int (length xs))"
  using assms(2)
proof (induction xs arbitrary: s st)
  case Nil
  then show ?case by auto
next
  case (Cons x xs)
  let ?K = "set (map fst (SINK_ITEMS_BY_EXTERNAL_ID (remote st)))"
  from submit_app_sink [where float_of = float_of and it = x and st = st, OF assms(1)]
  obtain st1 where sub: "submit float_of app_client x st
      = (Inr (if external_id x \<in> ?K then ''updated'' else ''created''), st1)"
    and k: "SINK_ITEMS_BY_EXTERNAL_ID (remote st1)
        = AList.update (external_id x) x (SINK_ITEMS_BY_EXTERNAL_ID (remote st))"
    by blast
  define s1 where "s1 = (if external_id x \<in> ?K then s\<lparr>updated_count := updated_count s + 1\<rparr>
      else s\<lparr>created_count := created_count s + 1\<rparr>)"
  have one: "upsert_one float_of app_client x s st = (s1, st1)"
    by (simp add: upsert_one_def sub s1_def)
  have rest: "upsert_loop float_of app_client xs s1 st1 = (s', st')"
    using Cons.prems by (simp add: one)
  note ih = Cons.IH [OF rest]
  have keys1: "set (map fst (SINK_ITEMS_BY_EXTERNAL_ID (remote st1))) = insert (external_id x) ?K"
    unfolding k by (auto simp: update_keys)
  have len1: "external_id x \<in> ?K \<Longrightarrow>
      length (SINK_ITEMS_BY_EXTERNAL_ID (remote st1)) = length (SINK_ITEMS_BY_EXTERNAL_ID (remote st))"
    unfolding k by (simp add: length_alist_update)
  have a: "failed_count s' = failed_count s"
    using ih by (simp add: s1_def)
  have b: "set (map fst (SINK_ITEMS_BY_EXTERNAL_ID (remote st'))) = ?K \<union> set (map external_id (x # xs))"
    using ih keys1 by auto
  have c: "length (SINK_ITEMS_BY_EXTERNAL_ID (remote st')) = length (SINK_ITEMS_BY_EXTERNAL_ID (remote st))
          \<and> created_count s' = created_count s
          \<and> updated_count s' = updated_count s + int (length (x # xs))"
    if sub: "set (map external_id (x # xs)) \<subseteq> ?K"
  proof -
    have x: "external_id x \<in> ?K" and xs: "set (map external_id xs) \<subseteq> ?K"
      using sub by auto
    have "set (map external_id xs) \<subseteq> set (map fst (SINK_ITEMS_BY_EXTERNAL_ID (remote st1)))"
      using xs keys1 by auto
    with ih have "length (SINK_ITEMS_BY_EXTERNAL_ID (remote st')) = length (SINK_ITEMS_BY_EXTERNAL_ID (remote st1))
          \<and> created_count s' = created_count s1
          \<and> updated_count s' = updated_count s1 + int (length xs)"
      by blast
    then show ?thesis
      using len1 [OF x] x by (simp add: s1_def)
  qed
  show ?case
    using a b c by blast
qed


text \<open>
  C1. Against the sink of \<^verbatim>\<open>api/app.py\<close>, whatever it holds and whatever its call counter, and
  for every list of records: a second run of the reconciler on the same records leaves the
  sink's count where the first run left it, and creates nothing (every record is reported
  \<^verbatim>\<open>updated\<close>, none fails). At the sink itself, a write of a record whose \<^verbatim>\<open>external_id\<close> is
  stored never changes the count, and answers the rate limit (429) or \<^verbatim>\<open>updated\<close>. The
  hypothesis on \<open>float_of\<close> is what Python's \<^verbatim>\<open>float("1")\<close> returns.
\<close>

theorem sync_idempotent:
  assumes "float_of ''1'' = Some 1"
    and "upsert_sink_items float_of app_client xs st = (s1, st1)"
    and "upsert_sink_items float_of app_client xs st1 = (s2, st2)"
  shows "sink_count (remote st2) = sink_count (remote st1)
    \<and> s2 = \<lparr>created_count = 0, updated_count = int (length xs), failed_count = 0\<rparr>
    \<and> (external_id p \<in> set (map fst (SINK_ITEMS_BY_EXTERNAL_ID a)) \<longrightarrow>
          sink_count (snd (sink_upsert p a)) = sink_count a
          \<and> (fst (sink_upsert p a) = http_exception 429 [(''Retry-After'', ''1'')]
               \<or> fst (sink_upsert p a) = ok_json (StatusBody ''updated'')))"
proof -
  have r1: "upsert_loop float_of app_client xs zero_stats st = (s1, st1)"
    and r2: "upsert_loop float_of app_client xs zero_stats st1 = (s2, st2)"
    using assms(2,3) by (simp_all add: upsert_sink_items_def zero_stats_def)
  note f1 = upsert_loop_app [where float_of = float_of, OF assms(1) r1]
  note f2 = upsert_loop_app [where float_of = float_of, OF assms(1) r2]
  have present: "set (map external_id xs) \<subseteq> set (map fst (SINK_ITEMS_BY_EXTERNAL_ID (remote st1)))"
    using f1 by blast
  with f2 have second: "failed_count s2 = failed_count zero_stats"
    "length (SINK_ITEMS_BY_EXTERNAL_ID (remote st2)) = length (SINK_ITEMS_BY_EXTERNAL_ID (remote st1))"
    "created_count s2 = created_count zero_stats"
    "updated_count s2 = updated_count zero_stats + int (length xs)"
    by blast+
  have a: "sink_count (remote st2) = sink_count (remote st1)"
    using second(2) by (simp add: sink_count_def)
  have b: "s2 = \<lparr>created_count = 0, updated_count = int (length xs), failed_count = 0\<rparr>"
    using second(1,3,4) by (cases s2) (simp add: zero_stats_def)
  have c: "sink_count (snd (sink_upsert p a)) = sink_count a
          \<and> (fst (sink_upsert p a) = http_exception 429 [(''Retry-After'', ''1'')]
               \<or> fst (sink_upsert p a) = ok_json (StatusBody ''updated''))"
    if "external_id p \<in> set (map fst (SINK_ITEMS_BY_EXTERNAL_ID a))"
    using that
    by (cases "(sink_write_calls a + 1) mod 5 = 0")
       (simp_all add: sink_upsert_limited sink_upsert_stored sink_count_def http_exception_def
          ok_json_def length_alist_update)
  show ?thesis
    using a b c by blast
qed

lemmas app_defs = app_client_def sink_upsert_def source_items_def SINK_429_EVERY_N_CALLS_def
  http_exception_def ok_json_def sink_count_def

theorem sync_idempotent_witness:
  "float_decimal ''1'' = Some 1
   \<and> fst (upsert_sink_items float_decimal app_client
        [\<lparr>external_id = ''item-1'', name = ''Item 1'', item_value = 1\<rparr>,
         \<lparr>external_id = ''item-2'', name = ''Item 2'', item_value = 2\<rparr>]
        (fresh \<lparr>SOURCE_ITEMS = [], SINK_ITEMS_BY_EXTERNAL_ID = [],
           FAIL_SOURCE_PAGE_2_ONCE = True, sink_write_calls = 3\<rparr>))
      = \<lparr>created_count = 2, updated_count = 0, failed_count = 0\<rparr>
   \<and> sink_count (remote (snd (upsert_sink_items float_decimal app_client
        [\<lparr>external_id = ''item-1'', name = ''Item 1'', item_value = 1\<rparr>,
         \<lparr>external_id = ''item-2'', name = ''Item 2'', item_value = 2\<rparr>]
        (fresh \<lparr>SOURCE_ITEMS = [], SINK_ITEMS_BY_EXTERNAL_ID = [],
           FAIL_SOURCE_PAGE_2_ONCE = True, sink_write_calls = 3\<rparr>)))) = 2
   \<and> sink_count (remote (snd (upsert_sink_items float_decimal app_client
        [\<lparr>external_id = ''item-1'', name = ''Item 1'', item_value = 1\<rparr>,
         \<lparr>external_id = ''item-2'', name = ''Item 2'', item_value = 2\<rparr>]
        (snd (upsert_sink_items float_decimal app_client
           [\<lparr>external_id = ''item-1'', name = ''Item 1'', item_value = 1\<rparr>,
            \<lparr>external_id = ''item-2'', name = ''Item 2'', item_value = 2\<rparr>]
           (fresh \<lparr>SOURCE_ITEMS = [], SINK_ITEMS_BY_EXTERNAL_ID = [],
              FAIL_SOURCE_PAGE_2_ONCE = True, sink_write_calls = 3\<rparr>)))))) = 2
   \<and> fst (upsert_sink_items float_decimal app_client
        [\<lparr>external_id = ''item-1'', name = ''Item 1'', item_value = 1\<rparr>,
         \<lparr>external_id = ''item-2'', name = ''Item 2'', item_value = 2\<rparr>]
        (snd (upsert_sink_items float_decimal app_client
           [\<lparr>external_id = ''item-1'', name = ''Item 1'', item_value = 1\<rparr>,
            \<lparr>external_id = ''item-2'', name = ''Item 2'', item_value = 2\<rparr>]
           (fresh \<lparr>SOURCE_ITEMS = [], SINK_ITEMS_BY_EXTERNAL_ID = [],
              FAIL_SOURCE_PAGE_2_ONCE = True, sink_write_calls = 3\<rparr>))))
      = \<lparr>created_count = 0, updated_count = 2, failed_count = 0\<rparr>
   \<and> slept (snd (upsert_sink_items float_decimal app_client
        [\<lparr>external_id = ''item-1'', name = ''Item 1'', item_value = 1\<rparr>,
         \<lparr>external_id = ''item-2'', name = ''Item 2'', item_value = 2\<rparr>]
        (fresh \<lparr>SOURCE_ITEMS = [], SINK_ITEMS_BY_EXTERNAL_ID = [],
           FAIL_SOURCE_PAGE_2_ONCE = True, sink_write_calls = 3\<rparr>))) = [1]"
proof -
  let ?xs = "[\<lparr>external_id = ''item-1'', name = ''Item 1'', item_value = 1\<rparr>,
         \<lparr>external_id = ''item-2'', name = ''Item 2'', item_value = 2\<rparr>]"
  let ?st = "fresh \<lparr>SOURCE_ITEMS = [], SINK_ITEMS_BY_EXTERNAL_ID = [],
           FAIL_SOURCE_PAGE_2_ONCE = True, sink_write_calls = 3\<rparr>"
  let ?R1 = "upsert_sink_items float_decimal app_client ?xs ?st"
  let ?R2 = "upsert_sink_items float_decimal app_client ?xs (snd ?R1)"
  have fl: "float_decimal ''1'' = Some 1"
    by (simp add: float_defs)
  have h1: "?R1 = (fst ?R1, snd ?R1)" and h2: "?R2 = (fst ?R2, snd ?R2)"
    by simp_all
  have e1: "fst ?R1 = \<lparr>created_count = 2, updated_count = 0, failed_count = 0\<rparr>"
    by (simp add: run_defs demo_defs app_defs request_loop.simps float_defs)
  have e2: "sink_count (remote (snd ?R1)) = 2"
    by (simp add: run_defs demo_defs app_defs request_loop.simps float_defs)
  have e3: "slept (snd ?R1) = [1]"
    by (simp add: run_defs demo_defs app_defs request_loop.simps float_defs)
  note T = sync_idempotent [where float_of = float_decimal and xs = ?xs and st = ?st, OF fl h1 h2]
  have t1: "sink_count (remote (snd ?R2)) = 2"
    using T e2 by simp
  have t2: "fst ?R2 = \<lparr>created_count = 0, updated_count = 2, failed_count = 0\<rparr>"
    using T by simp
  show ?thesis
    using fl e1 e2 t1 t2 e3 by blast
qed

section \<open>Properties of the fetcher\<close>

lemma final_state_Cons:
  "final_state st ((b, nxt, st') # rest) = final_state st' rest"
  by (simp add: final_state_def)

lemma fetch_loop_stop:
  assumes "page_trace float_of client st page []"
  shows "fetch_loop float_of client lmt page acc st = Some (Inr acc, st)"
  using assms by (subst fetch_loop.simps) (auto split: option.splits)

lemma fetch_loop_step:
  assumes "page_trace float_of client st page ((b, nxt, st') # rest)"
  shows "fetch_loop float_of client lmt page acc st
    = (if (case lmt of None \<Rightarrow> False | Some l \<Rightarrow> l \<le> int (length (acc @ b)))
       then Some (Inr (acc @ b), st')
       else fetch_loop float_of client lmt nxt (acc @ b) st')"
  using assms
  by (subst fetch_loop.simps)
     (auto split: option.splits prod.splits sum.splits simp: json_items_def json_next_page_def)

lemma fetch_loop_unlimited:
  assumes "page_trace float_of client st page tr"
  shows "fetch_loop float_of client None page acc st
    = Some (Inr (acc @ concat (map fst tr)), final_state st tr)"
  using assms
proof (induction tr arbitrary: st page acc)
  case Nil
  then show ?case by (simp add: fetch_loop_stop final_state_def)
next
  case (Cons x tr)
  obtain b nxt st' where x: "x = (b, nxt, st')"
    by (cases x)
  have rest: "page_trace float_of client st' nxt tr"
    using Cons.prems unfolding x by (simp split: option.splits)
  show ?case
    unfolding x
    by (simp add: fetch_loop_step [OF Cons.prems [unfolded x]] Cons.IH [OF rest] final_state_Cons)
qed

lemma fetch_loop_limited:
  assumes "page_trace float_of client st page tr"
  shows "fetch_loop float_of client (Some l) page acc st
    = Some (Inr (acc @ concat (map fst (take (pages_needed l (length acc) (map fst tr)) tr))),
            final_state st (take (pages_needed l (length acc) (map fst tr)) tr))"
  using assms
proof (induction tr arbitrary: st page acc)
  case Nil
  then show ?case by (simp add: fetch_loop_stop final_state_def)
next
  case (Cons x tr)
  obtain b nxt st' where x: "x = (b, nxt, st')"
    by (cases x)
  have rest: "page_trace float_of client st' nxt tr"
    using Cons.prems unfolding x by (simp split: option.splits)
  show ?case
  proof (cases "l \<le> int (length acc + length b)")
    case True
    then show ?thesis
      unfolding x
      by (simp add: fetch_loop_step [OF Cons.prems [unfolded x]] final_state_def)
  next
    case False
    then show ?thesis
      unfolding x
      using Cons.IH [OF rest, of "acc @ b"]
      by (simp add: fetch_loop_step [OF Cons.prems [unfolded x]] final_state_Cons)
  qed
qed

lemma take_pages_needed:
  assumes "0 \<le> l"
  shows "take (nat l) (acc @ concat (take (pages_needed l (length acc) bs) bs))
    = take (nat l) (acc @ concat bs)"
proof (induction bs arbitrary: acc)
  case Nil
  show ?case by simp
next
  case (Cons b bs)
  show ?case
  proof (cases "l \<le> int (length acc + length b)")
    case True
    then have "nat l \<le> length (acc @ b)"
      by simp
    then have "take (nat l) ((acc @ b) @ concat bs) = take (nat l) (acc @ b)"
      by (simp del: append_assoc)
    then show ?thesis
      using True by simp
  next
    case False
    then show ?thesis
      using Cons.IH [of "acc @ b"] by simp
  qed
qed

lemma py_slice_take:
  assumes "0 \<le> l"
  shows "py_slice 0 l xs = take (nat l) xs"
  using assms by (simp add: py_slice_def py_index_def min_def)


text \<open>
  The scenario of the tests: the started service holds 25 records, served as three pages,
  and its page 2 fails once with status 500 before it succeeds on the retry.
\<close>

lemma length_seed_source: "length seed_source = 25"
  by (simp add: seed_source_def)

lemma seed_source_pages:
  "take 10 seed_source @ take 10 (drop 10 seed_source) @ drop 20 seed_source = seed_source"
proof -
  have "take 10 (drop 10 seed_source) @ drop 20 seed_source = drop 10 seed_source"
    using append_take_drop_id [of 10 "drop 10 seed_source"] by simp
  then show ?thesis
    by simp
qed

lemma app_started_trace:
  "page_trace float_decimal app_client (fresh app_started) (Some 1)
     [(take 10 seed_source, Some 2,
       (fresh app_started)\<lparr>exchanges :=
          [(GET_source_items 1 10, Responds \<lparr>status_code = 200, headers = [],
              body = PageBody (take 10 seed_source) (Some 2)\<rparr>)]\<rparr>),
      (take 10 (drop 10 seed_source), Some 3,
       (fresh app_started)\<lparr>remote := app_started\<lparr>FAIL_SOURCE_PAGE_2_ONCE := False\<rparr>,
          exchanges :=
          [(GET_source_items 1 10, Responds \<lparr>status_code = 200, headers = [],
              body = PageBody (take 10 seed_source) (Some 2)\<rparr>),
           (GET_source_items 2 10, Responds \<lparr>status_code = 500, headers = [], body = OtherBody\<rparr>),
           (GET_source_items 2 10, Responds \<lparr>status_code = 200, headers = [],
              body = PageBody (take 10 (drop 10 seed_source)) (Some 3)\<rparr>)],
          slept := [0.4], draws := 1\<rparr>),
      (drop 20 seed_source, None,
       (fresh app_started)\<lparr>remote := app_started\<lparr>FAIL_SOURCE_PAGE_2_ONCE := False\<rparr>,
          exchanges :=
          [(GET_source_items 1 10, Responds \<lparr>status_code = 200, headers = [],
              body = PageBody (take 10 seed_source) (Some 2)\<rparr>),
           (GET_source_items 2 10, Responds \<lparr>status_code = 500, headers = [], body = OtherBody\<rparr>),
           (GET_source_items 2 10, Responds \<lparr>status_code = 200, headers = [],
              body = PageBody (take 10 (drop 10 seed_source)) (Some 3)\<rparr>),
           (GET_source_items 3 10, Responds \<lparr>status_code = 200, headers = [],
              body = PageBody (drop 20 seed_source) None\<rparr>)],
          slept := [0.4], draws := 1\<rparr>)]"
  by (simp add: max_pages_def page_size_def run_defs request_loop.simps app_defs fresh_def
      app_started_def py_slice_def py_index_def length_seed_source)


lemma fetch_app_started:
  "fetch_all_source_items float_decimal app_client None (fresh app_started)
     = Some (Inr seed_source,
         (fresh app_started)\<lparr>remote := app_started\<lparr>FAIL_SOURCE_PAGE_2_ONCE := False\<rparr>,
          exchanges :=
          [(GET_source_items 1 10, Responds \<lparr>status_code = 200, headers = [],
              body = PageBody (take 10 seed_source) (Some 2)\<rparr>),
           (GET_source_items 2 10, Responds \<lparr>status_code = 500, headers = [], body = OtherBody\<rparr>),
           (GET_source_items 2 10, Responds \<lparr>status_code = 200, headers = [],
              body = PageBody (take 10 (drop 10 seed_source)) (Some 3)\<rparr>),
           (GET_source_items 3 10, Responds \<lparr>status_code = 200, headers = [],
              body = PageBody (drop 20 seed_source) None\<rparr>)],
          slept := [0.4], draws := 1\<rparr>)"
  using fetch_loop_unlimited [OF app_started_trace, of "[]"] seed_source_pages
  by (simp add: fetch_all_source_items_def final_state_def)

lemma request_always_ok:
  assumes "status_code resp < 400"
  shows "request_with_retries float_of (always resp) req RetryPolicy st
    = (Inr resp, st\<lparr>exchanges := exchanges st @ [(req, Responds resp)]\<rparr>)"
  using assms
  by (simp add: request_with_retries_def request_loop.simps [of _ _ _ _ 1] request_attempt_def
      always_def RetryPolicy_def)

lemma fetch_loop_stuck:
  assumes "fetch_loop float_of client lmt page acc st = Some y"
  shows "client = always \<lparr>status_code = 200, headers = [], body = PageBody [] (Some 1)\<rparr>
    \<longrightarrow> lmt = None \<longrightarrow> page = Some 1 \<longrightarrow> False"
  using assms
proof (induction float_of client lmt page acc st y rule: fetch_loop.raw_induct [rotated, consumes 1])
  case (1 fetch_loop float_of client lmt page acc st y)
  show ?case
  proof (intro impI)
    assume c: "client = always \<lparr>status_code = 200, headers = [], body = PageBody [] (Some 1)\<rparr>"
      and l: "lmt = None" and p: "page = Some 1"
    from "1.hyps" have "fetch_loop float_of client lmt page acc
        (st\<lparr>exchanges := exchanges st @ [(GET_source_items 1 page_size,
            Responds \<lparr>status_code = 200, headers = [], body = PageBody [] (Some 1)\<rparr>)]\<rparr>) = Some y"
      unfolding c l p
      by (simp add: request_always_ok max_pages_def json_items_def json_next_page_def)
    from "1.IH" [OF this] c l p show False
      by simp
  qed
qed

text \<open>
  C6 (the code at the failing input). A source that answers every request with an empty page
  and the cursor 1: the loop guard \<^verbatim>\<open>page <= max_pages\<close> holds for ever, and the fetch without
  a limit never returns.
\<close>

theorem fetch_never_ends_on_repeating_cursor:
  "fetch_all_source_items float_of
      (always \<lparr>status_code = 200, headers = [], body = PageBody [] (Some 1)\<rparr>) None st = None"
proof (cases "fetch_loop float_of
      (always \<lparr>status_code = 200, headers = [], body = PageBody [] (Some 1)\<rparr>) None (Some 1) [] st")
  case None
  then show ?thesis
    by (simp add: fetch_all_source_items_def)
next
  case (Some y)
  from fetch_loop_stuck [OF this] show ?thesis
    by simp
qed

lemma request_loop_remote:
  assumes "request_loop f c req retry a le st = (r, st')"
    and "\<forall>w. g (snd (c req w)) = g w"
  shows "g (remote st') = g (remote st)"
  using assms
proof (induction f c req retry a le st rule: request_loop.induct)
  case (1 f c req retry a le st)
  note run = "1.prems"(1) and inv = "1.prems"(2)
  show ?case
  proof (cases "a \<le> max_attempts retry")
    case False
    with run have "st' = st"
      by (simp add: request_loop.simps [of f c req retry a] split: option.splits)
    then show ?thesis by simp
  next
    case True
    obtain fl st1 where att: "request_attempt f c req retry a le st = (fl, st1)"
      by (cases "request_attempt f c req retry a le st")
    have g1: "g (remote st1) = g (remote st)"
      using request_attempt_frame [OF att] inv by simp
    show ?thesis
    proof (cases fl)
      case (Return resp)
      with att run True have "st' = st1"
        by (simp add: request_loop.simps [of f c req retry a])
      then show ?thesis using g1 by simp
    next
      case (Raise e)
      with att run True have "st' = st1"
        by (simp add: request_loop.simps [of f c req retry a])
      then show ?thesis using g1 by simp
    next
      case (Continue le')
      with att run True have rec: "request_loop f c req retry (a + 1) le' st1 = (r, st')"
        by (simp add: request_loop.simps [of f c req retry a])
      from "1.IH" [OF True att [symmetric] Continue rec inv] g1 show ?thesis
        by simp
    qed
  qed
qed

lemma request_source_frame:
  assumes "request_with_retries f c (GET_source_items p l) RetryPolicy st = (r, st')"
  shows "(\<forall>q \<in> set (sent_since st st'). is_source_get q)
    \<and> take (length (exchanges st)) (exchanges st') = exchanges st
    \<and> length (exchanges st) \<le> length (exchanges st')
    \<and> report_file st' = report_file st
    \<and> ((\<forall>p l w. g (snd (c (GET_source_items p l) w)) = g w) \<longrightarrow> g (remote st') = g (remote st))"
proof -
  from request_with_retries_sent [OF assms]
  have e: "exchanges st' = exchanges st @ map (Pair (GET_source_items p l)) (outcomes_since st st')"
    and rf: "report_file st' = report_file st"
    by blast+
  have "sent_since st st' = map fst (map (Pair (GET_source_items p l)) (outcomes_since st st'))"
    unfolding sent_since_def by (subst e) simp
  then have a: "\<forall>q \<in> set (sent_since st st'). is_source_get q"
    by (auto simp: is_source_get_def)
  have b: "take (length (exchanges st)) (exchanges st') = exchanges st"
    by (subst e) simp
  have c: "length (exchanges st) \<le> length (exchanges st')"
    by (subst e) simp
  have d: "g (remote st') = g (remote st)" if "\<forall>p l w. g (snd (c (GET_source_items p l) w)) = g w"
    using request_loop_remote [OF assms [unfolded request_with_retries_def], of g] that by simp
  show ?thesis
    using a b c d rf by blast
qed

lemma fetch_frame_refl: "fetch_frame c g st st"
  by (simp add: fetch_frame_def sent_since_def)

lemma fetch_frame_trans:
  assumes "fetch_frame c g a b" and "fetch_frame c g b d"
  shows "fetch_frame c g a d"
proof -
  from assms have t: "take (length (exchanges a)) (exchanges b) = exchanges a"
    "length (exchanges a) \<le> length (exchanges b)"
    "take (length (exchanges b)) (exchanges d) = exchanges b"
    "length (exchanges b) \<le> length (exchanges d)"
    by (simp_all add: fetch_frame_def)
  note tr = sent_since_trans [OF t]
  show ?thesis
    using assms tr by (auto simp: fetch_frame_def)
qed

lemma fetch_loop_frame:
  assumes "fetch_loop f c lmt page acc st = Some y"
  shows "fetch_frame c g st (snd y)"
  using assms
proof (induction f c lmt page acc st y rule: fetch_loop.raw_induct [rotated, consumes 1])
  case (1 fetch_loop f c lmt page acc st y)
  show ?case
  proof (cases page)
    case None
    with "1.hyps" show ?thesis
      by (auto simp: fetch_frame_refl)
  next
    case (Some p)
    show ?thesis
    proof (cases "p \<noteq> 0 \<and> p \<le> max_pages")
      case False
      with "1.hyps" Some show ?thesis
        by (auto simp: fetch_frame_refl)
    next
      case True
      obtain r st1 where rw: "request_with_retries f c (GET_source_items p page_size) RetryPolicy st = (r, st1)"
        by (cases "request_with_retries f c (GET_source_items p page_size) RetryPolicy st")
      have f1: "fetch_frame c g st st1"
        unfolding fetch_frame_def by (rule request_source_frame [OF rw])
      from "1.hyps" Some True rw
      have "snd y = st1 \<or> (\<exists>nxt b. fetch_loop f c lmt nxt b st1 = Some y)"
        by (auto split: sum.splits if_splits)
      then show ?thesis
      proof
        assume "snd y = st1"
        then show ?thesis using f1 by simp
      next
        assume "\<exists>nxt b. fetch_loop f c lmt nxt b st1 = Some y"
        then obtain nxt b where "fetch_loop f c lmt nxt b st1 = Some y"
          by blast
        from "1.IH" [OF this] f1 show ?thesis
          by (rule fetch_frame_trans [rotated])
      qed
    qed
  qed
qed

lemmas fetch_defs = fetch_all_source_items_def max_pages_def page_size_def json_items_def
  json_next_page_def py_slice_def py_index_def




end
